theory Spec2Isabelle
  imports Complex_Main "HOL-Library.Multiset" "HOL-Library.Log_Nat"
begin

section \<open>Timestamps and durations\<close>

text \<open>
  The reconciliation engine (\<^verbatim>\<open>attendance_core/compute.py\<close>) compares timestamps,
  subtracts them, adds fixed durations to them and reads their calendar date and time of
  day. The timestamps of the two tables are timezone-aware and all of one zone (the
  parsers localise every value to \<^verbatim>\<open>timezone_str\<close>). A timestamp is modelled as an
  instant, the number of microseconds since the epoch; comparison, subtraction and the
  addition of a \<^verbatim>\<open>timedelta\<close> work on instants (adding \<^verbatim>\<open>timedelta(days=1)\<close> adds
  24 elapsed hours). The calendar date and the time of day are read on the wall clock of
  the zone, which is a parameter: \<open>zone t\<close> is the zone's UTC offset at the instant
  \<open>t\<close>, in microseconds. A \<^verbatim>\<open>date\<close> is a day number, a \<^verbatim>\<open>timedelta\<close> a signed
  number of microseconds. The range limits of timestamps are not modelled.
\<close>

type_synonym datetime = int
type_synonym timedelta = int
type_synonym day_number = int
type_synonym tzinfo = "int \<Rightarrow> int"

definition usec_per_day :: int where
  "usec_per_day = 86400000000"

definition dt_date :: "tzinfo \<Rightarrow> datetime \<Rightarrow> day_number" where
  \<comment> \<open>\<^verbatim>\<open>ts.date()\<close>\<close>
  "dt_date zone t = (t + zone t) div usec_per_day"

definition dt_time :: "tzinfo \<Rightarrow> datetime \<Rightarrow> int" where
  \<comment> \<open>\<^verbatim>\<open>ts.time()\<close>: microseconds since local midnight\<close>
  "dt_time zone t = (t + zone t) mod usec_per_day"

definition timedelta_days :: "int \<Rightarrow> timedelta" where
  "timedelta_days d = d * usec_per_day"

definition timedelta_minutes :: "int \<Rightarrow> timedelta" where
  "timedelta_minutes m = m * 60000000"

section \<open>Floats\<close>

text \<open>
  The minute, hour and percentage quantities of \<^verbatim>\<open>compute.py\<close> are Python floats
  (IEEE binary64). A float is modelled by the rational number it denotes, and every
  float operation rounds its exact result to the nearest binary64 value, a tie going to
  the even significand: \<open>fl\<close>. Subnormal numbers are covered; overflow to infinity is
  not (no quantity of the engine comes near \<open>2 ^ 1024\<close>). The one source of a
  not-a-number, \<^verbatim>\<open>total_seconds()\<close> of a missing duration, is modelled by an \<open>option\<close>.
\<close>

definition round_half_even :: "rat \<Rightarrow> int" where
  "round_half_even q =
     (let f = \<lfloor>q\<rfloor>; d = q - of_int f
      in if d < 1 / 2 then f else if d > 1 / 2 then f + 1 else if even f then f else f + 1)"

definition pow2 :: "int \<Rightarrow> rat" where
  "pow2 e = 2 powi e"

definition floor_log2 :: "rat \<Rightarrow> int" where
  \<comment> \<open>for \<open>x > 0\<close>, the \<open>k\<close> with \<open>2 ^ k \<le> x < 2 ^ (k + 1)\<close>\<close>
  "floor_log2 x = (if 1 \<le> x then bitlen \<lfloor>x\<rfloor> - 1 else - bitlen (\<lceil>1 / x\<rceil> - 1))"

definition fl_exponent :: "rat \<Rightarrow> int" where
  \<comment> \<open>the exponent of the last place of the binary64 values around \<open>x > 0\<close>\<close>
  "fl_exponent x = max (floor_log2 x - 52) (- 1074)"

definition fl :: "rat \<Rightarrow> rat" where
  "fl x = (if x = 0 then 0 else
     sgn x * (of_int (round_half_even (\<bar>x\<bar> / pow2 (fl_exponent \<bar>x\<bar>))) * pow2 (fl_exponent \<bar>x\<bar>)))"

definition fsum :: "rat list \<Rightarrow> rat" where
  \<comment> \<open>\<^verbatim>\<open>sum(xs)\<close>: the floats are added one after the other, from the left, starting at 0\<close>
  "fsum xs = foldl (\<lambda>acc x. fl (acc + x)) 0 xs"

definition total_seconds :: "timedelta \<Rightarrow> rat" where
  \<comment> \<open>\<^verbatim>\<open>td.total_seconds()\<close>\<close>
  "total_seconds td = fl (of_int td / 1000000)"

definition round2 :: "rat \<Rightarrow> rat" where
  \<comment> \<open>\<^verbatim>\<open>round(x, 2)\<close>: the float nearest to the multiple of 1/100 nearest to \<open>x\<close>\<close>
  "round2 x = fl (of_int (round_half_even (x * 100)) / 100)"

section \<open>Errors\<close>

text \<open>
  Every operation of the engine that can raise is modelled as fallible, so that a guard
  of the source is what keeps an error away, not the totality of HOL.
\<close>

datatype error = IndexError | ZeroDivisionError | ValueError | TypeError | AttributeError

definition iloc0 :: "'a list \<Rightarrow> error + 'a" where
  \<comment> \<open>\<^verbatim>\<open>df.iloc[0]\<close>\<close>
  "iloc0 xs = (case xs of [] \<Rightarrow> Inl IndexError | x # _ \<Rightarrow> Inr x)"

definition truediv :: "rat \<Rightarrow> rat \<Rightarrow> error + rat" where
  \<comment> \<open>\<^verbatim>\<open>a / b\<close> on floats\<close>
  "truediv a b = (if b = 0 then Inl ZeroDivisionError else Inr (fl (a / b)))"

definition bind_err :: "error + 'a \<Rightarrow> ('a \<Rightarrow> error + 'b) \<Rightarrow> error + 'b" where
  \<comment> \<open>sequencing: an exception of the first computation ends the run\<close>
  "bind_err m f = (case m of Inl e \<Rightarrow> Inl e | Inr x \<Rightarrow> f x)"

section \<open>Punch cells\<close>

text \<open>
  The punch table is a pandas DataFrame (\<^verbatim>\<open>pd.DataFrame(punch_records)\<close>,
  \<^verbatim>\<open>parse_punch.py\<close> line 134). A punch the parser did not find is \<^verbatim>\<open>None\<close> in a
  column that holds no timestamp at all, and the missing-value marker \<^verbatim>\<open>NaT\<close> in a
  column that holds a timestamp in some row. \<^verbatim>\<open>NaT\<close> is not \<^verbatim>\<open>None\<close> and is truthy;
  its \<^verbatim>\<open>time()\<close> raises \<^verbatim>\<open>ValueError\<close>; every comparison with it is false;
  arithmetic with it gives \<^verbatim>\<open>NaT\<close>, whose \<^verbatim>\<open>total_seconds()\<close> is not-a-number.
\<close>

datatype cell = PyNone | NaT | Timestamp datetime

definition truthy :: "cell \<Rightarrow> bool" where
  \<comment> \<open>\<^verbatim>\<open>bool(x)\<close>, and also \<^verbatim>\<open>x is not None\<close>\<close>
  "truthy c = (c \<noteq> PyNone)"

definition cell_time :: "tzinfo \<Rightarrow> cell \<Rightarrow> error + int" where
  \<comment> \<open>\<^verbatim>\<open>x.time()\<close>\<close>
  "cell_time zone c =
     (case c of Timestamp t \<Rightarrow> Inr (dt_time zone t) | NaT \<Rightarrow> Inl ValueError
      | PyNone \<Rightarrow> Inl AttributeError)"

definition cell_plus :: "cell \<Rightarrow> timedelta \<Rightarrow> error + cell" where
  \<comment> \<open>\<^verbatim>\<open>x + td\<close>\<close>
  "cell_plus c td =
     (case c of Timestamp t \<Rightarrow> Inr (Timestamp (t + td)) | NaT \<Rightarrow> Inr NaT
      | PyNone \<Rightarrow> Inl TypeError)"

definition cell_minus :: "cell \<Rightarrow> cell \<Rightarrow> error + timedelta option" where
  \<comment> \<open>\<^verbatim>\<open>x - y\<close>: a duration, or \<open>None\<close> for the missing duration \<^verbatim>\<open>NaT\<close>\<close>
  "cell_minus c d =
     (case (c, d) of
        (Timestamp s, Timestamp t) \<Rightarrow> Inr (Some (s - t))
      | (PyNone, _) \<Rightarrow> Inl TypeError
      | (_, PyNone) \<Rightarrow> Inl TypeError
      | _ \<Rightarrow> Inr None)"

definition cell_gt :: "cell \<Rightarrow> datetime \<Rightarrow> error + bool" where
  \<comment> \<open>\<^verbatim>\<open>x > ts\<close>\<close>
  "cell_gt c ts =
     (case c of Timestamp t \<Rightarrow> Inr (t > ts) | NaT \<Rightarrow> Inr False | PyNone \<Rightarrow> Inl TypeError)"

definition cell_lt :: "cell \<Rightarrow> datetime \<Rightarrow> error + bool" where
  \<comment> \<open>\<^verbatim>\<open>x < ts\<close>\<close>
  "cell_lt c ts =
     (case c of Timestamp t \<Rightarrow> Inr (t < ts) | NaT \<Rightarrow> Inr False | PyNone \<Rightarrow> Inl TypeError)"

section \<open>Data model\<close>

datatype shift = AM | PM

record shift_config =
  start :: string
  finish :: string
  cross_midnight :: bool

record policy_config =
  am :: shift_config
  pm :: shift_config
  tardy_minutes :: int
  early_minutes :: int
  timezone :: string

text \<open>
  A row of the punch table. \<^verbatim>\<open>build_attendance\<close> reads the columns \<^verbatim>\<open>date\<close>,
  \<^verbatim>\<open>in1\<close>, \<^verbatim>\<open>out1\<close>, \<^verbatim>\<open>in2\<close> and \<^verbatim>\<open>out2\<close> only.
\<close>

record punch_row =
  punch_date :: day_number
  in1 :: cell
  out1 :: cell
  in2 :: cell
  out2 :: cell

text \<open>A row of the schedule table (columns \<^verbatim>\<open>date\<close>, \<^verbatim>\<open>shift_type\<close>,
  \<^verbatim>\<open>sched_start_dt\<close>, \<^verbatim>\<open>sched_end_dt\<close>); its two timestamps are never missing.\<close>

record sched_row =
  sched_date :: day_number
  sched_shift_type :: shift
  sched_start :: datetime
  sched_end :: datetime

record day_record =
  date :: day_number
  shift_type :: shift
  sched_start_dt :: datetime
  sched_end_dt :: datetime
  actual_in :: cell
  actual_out :: cell
  actual_out1 :: cell
  actual_in2 :: cell
  sched_minutes :: rat
  worked_minutes :: rat
  worked_minutes_clipped :: rat
  attendance_fraction :: rat
  present :: bool
  tardy :: bool
  early_dismissal :: bool

record summary =
  scheduled_shifts :: int
  shifts_worked :: int
  attendance_pct_shifts :: rat
  scheduled_hours :: rat
  worked_hours :: rat
  attendance_pct_hours :: rat
  tardy_count :: int
  early_dismissal_count :: int

text \<open>
  The only warning of \<^verbatim>\<open>build_attendance\<close> is the message
  \<^verbatim>\<open>"Multiple punch records found for {shift_date}, using first one"\<close>; it is
  represented by the date it is formatted from.
\<close>

datatype warning = MultiplePunchRecords day_number

section \<open>utils.clamp\<close>

text \<open>
  \<^verbatim>\<open>def clamp(value, min_val, max_val): return max(min_val, min(value, max_val))\<close>
\<close>

definition clamp :: "rat \<Rightarrow> rat \<Rightarrow> rat \<Rightarrow> rat" where
  "clamp v min_val max_val = max min_val (min v max_val)"

section \<open>build_attendance: one scheduled shift\<close>

text \<open>
  The local variables of the loop body that the punch row determines
  (\<^verbatim>\<open>actual_in\<close>, \<^verbatim>\<open>actual_out\<close>, \<^verbatim>\<open>actual_out1\<close>, \<^verbatim>\<open>actual_in2\<close>,
  \<^verbatim>\<open>worked_minutes\<close>, \<^verbatim>\<open>present\<close>).
\<close>

record actuals =
  v_actual_in :: cell
  v_actual_out :: cell
  v_actual_out1 :: cell
  v_actual_in2 :: cell
  v_worked_minutes :: rat
  v_present :: bool

text \<open>
  The punch row's part of the loop body (lines 62 to 100 of \<^verbatim>\<open>compute.py\<close>):
  \<^verbatim>\<open>
  actual_in = punch_row['in1']
  actual_out = punch_row['out2']
  actual_out1 = punch_row['out1']
  actual_in2 = punch_row['in2']
  present = actual_in is not None
  if present and actual_out is not None:
      cross_midnight = sched_end_dt.date() > sched_start_dt.date()
      if cross_midnight and actual_out.time() < actual_in.time():
          actual_out = actual_out.replace(year=actual_out.year, month=actual_out.month,
                                          day=actual_out.day) + timedelta(days=1)
      if cross_midnight and actual_out1 and actual_in2:
          if actual_in2.time() < actual_out1.time():
              actual_in2 = actual_in2 + timedelta(days=1)
      lunch_minutes = 0.0
      if actual_out1 and actual_in2:
          lunch_duration = actual_in2 - actual_out1
          if lunch_duration.total_seconds() > 0:
              lunch_minutes = lunch_duration.total_seconds() / 60
          lunch_minutes = max(0.0, lunch_minutes)
      total_duration = actual_out - actual_in
      total_minutes = total_duration.total_seconds() / 60
      worked_minutes = max(0.0, total_minutes - lunch_minutes)
  \<close>
\<close>

definition no_punch :: actuals where
  \<comment> \<open>lines 48 to 53: the defaults, kept when no punch row matches\<close>
  "no_punch = \<lparr>v_actual_in = PyNone, v_actual_out = PyNone, v_actual_out1 = PyNone,
     v_actual_in2 = PyNone, v_worked_minutes = 0, v_present = False\<rparr>"

definition adjust_actual_out :: "tzinfo \<Rightarrow> bool \<Rightarrow> cell \<Rightarrow> cell \<Rightarrow> error + cell" where
  \<comment> \<open>lines 75 to 81; \<^verbatim>\<open>replace\<close> with the value's own year, month and day is the identity\<close>
  "adjust_actual_out zone crosses a_in a_out =
     (if crosses then
        bind_err (cell_time zone a_out) (\<lambda>t_out.
        bind_err (cell_time zone a_in) (\<lambda>t_in.
        if t_out < t_in then cell_plus a_out (timedelta_days 1) else Inr a_out))
      else Inr a_out)"

definition adjust_actual_in2 :: "tzinfo \<Rightarrow> bool \<Rightarrow> cell \<Rightarrow> cell \<Rightarrow> error + cell" where
  \<comment> \<open>lines 85 to 87\<close>
  "adjust_actual_in2 zone crosses a_out1 a_in2 =
     (if crosses \<and> truthy a_out1 \<and> truthy a_in2 then
        bind_err (cell_time zone a_in2) (\<lambda>t_in2.
        bind_err (cell_time zone a_out1) (\<lambda>t_out1.
        if t_in2 < t_out1 then cell_plus a_in2 (timedelta_days 1) else Inr a_in2))
      else Inr a_in2)"

definition lunch_minutes_of :: "cell \<Rightarrow> cell \<Rightarrow> error + rat" where
  \<comment> \<open>lines 90 to 95; a comparison with not-a-number is false\<close>
  "lunch_minutes_of a_out1 a_in2 =
     (if truthy a_out1 \<and> truthy a_in2 then
        bind_err (cell_minus a_in2 a_out1) (\<lambda>lunch_duration.
        Inr (max 0
          (case lunch_duration of
             Some td \<Rightarrow> if total_seconds td > 0 then fl (total_seconds td / 60) else 0
           | None \<Rightarrow> 0)))
      else Inr 0)"

definition worked_minutes_of :: "timedelta option \<Rightarrow> rat \<Rightarrow> rat" where
  \<comment> \<open>lines 99 and 100; \<^verbatim>\<open>max(0.0, nan)\<close> is \<^verbatim>\<open>0.0\<close>\<close>
  "worked_minutes_of total_duration lunch_minutes =
     (case total_duration of
        Some td \<Rightarrow> max 0 (fl (fl (total_seconds td / 60) - lunch_minutes))
      | None \<Rightarrow> 0)"

definition read_punch :: "tzinfo \<Rightarrow> sched_row \<Rightarrow> punch_row \<Rightarrow> error + actuals" where
  \<comment> \<open>lines 62 to 100\<close>
  "read_punch zone srow prow =
     (let is_present = truthy (in1 prow)
      in if is_present \<and> truthy (out2 prow) then
           (let crosses = dt_date zone (sched_end srow) > dt_date zone (sched_start srow)
            in bind_err (adjust_actual_out zone crosses (in1 prow) (out2 prow)) (\<lambda>a_out.
               bind_err (adjust_actual_in2 zone crosses (out1 prow) (in2 prow)) (\<lambda>a_in2.
               bind_err (lunch_minutes_of (out1 prow) a_in2) (\<lambda>lunch_minutes.
               bind_err (cell_minus a_out (in1 prow)) (\<lambda>total_duration.
               Inr \<lparr>v_actual_in = in1 prow, v_actual_out = a_out,
                    v_actual_out1 = out1 prow, v_actual_in2 = a_in2,
                    v_worked_minutes = worked_minutes_of total_duration lunch_minutes,
                    v_present = is_present\<rparr>)))))
         else
           Inr \<lparr>v_actual_in = in1 prow, v_actual_out = out2 prow,
                v_actual_out1 = out1 prow, v_actual_in2 = in2 prow,
                v_worked_minutes = 0, v_present = is_present\<rparr>)"

text \<open>
  The rest of the loop body (line 42 and lines 104 to 140):
  \<^verbatim>\<open>
  sched_minutes = (sched_end_dt - sched_start_dt).total_seconds() / 60
  tardy = False
  early_dismissal = False
  if present:
      if actual_in and actual_in > (sched_start_dt + timedelta(minutes=tardy_minutes)):
          tardy = True
      if actual_out and actual_out < (sched_end_dt - timedelta(minutes=early_minutes)):
          early_dismissal = True
  worked_minutes_clipped = clamp(worked_minutes, 0.0, sched_minutes)
  attendance_fraction = worked_minutes_clipped / sched_minutes if sched_minutes > 0 else 0.0
  day_record = DayRecord(date=shift_date, shift_type=shift_type, ...)
  \<close>
\<close>

definition make_day_record :: "policy_config \<Rightarrow> sched_row \<Rightarrow> actuals \<Rightarrow> error + day_record" where
  \<comment> \<open>line 42 and lines 104 to 140\<close>
  "make_day_record config srow a =
     (let minutes = fl (total_seconds (sched_end srow - sched_start srow) / 60);
          clipped = clamp (v_worked_minutes a) 0 minutes
      in bind_err (if v_present a \<and> truthy (v_actual_in a)
                   then cell_gt (v_actual_in a)
                          (sched_start srow + timedelta_minutes (tardy_minutes config))
                   else Inr False) (\<lambda>is_tardy.
         bind_err (if v_present a \<and> truthy (v_actual_out a)
                   then cell_lt (v_actual_out a)
                          (sched_end srow - timedelta_minutes (early_minutes config))
                   else Inr False) (\<lambda>is_early.
         bind_err (if minutes > 0 then truediv clipped minutes else Inr 0) (\<lambda>fraction.
         Inr \<lparr>date = sched_date srow,
              shift_type = sched_shift_type srow,
              sched_start_dt = sched_start srow,
              sched_end_dt = sched_end srow,
              actual_in = v_actual_in a,
              actual_out = v_actual_out a,
              actual_out1 = v_actual_out1 a,
              actual_in2 = v_actual_in2 a,
              sched_minutes = minutes,
              worked_minutes = v_worked_minutes a,
              worked_minutes_clipped = clipped,
              attendance_fraction = fraction,
              present = v_present a,
              tardy = is_tardy,
              early_dismissal = is_early\<rparr>))))"

text \<open>
  Matching (lines 45 and 55 to 60):
  \<^verbatim>\<open>
  punch_matches = punch_df[punch_df['date'] == shift_date]
  if not punch_matches.empty:
      if len(punch_matches) > 1:
          warnings.append(f"Multiple punch records found for {shift_date}, using first one")
      punch_row = punch_matches.iloc[0]
  \<close>
\<close>

definition punch_matches :: "punch_row list \<Rightarrow> day_number \<Rightarrow> punch_row list" where
  \<comment> \<open>line 45: \<^verbatim>\<open>punch_df[punch_df['date'] == shift_date]\<close>, rows in table order\<close>
  "punch_matches punch_df shift_date = filter (\<lambda>p. punch_date p = shift_date) punch_df"

definition process_shift ::
  "tzinfo \<Rightarrow> punch_row list \<Rightarrow> policy_config \<Rightarrow> sched_row
     \<Rightarrow> error + (day_record \<times> warning list)" where
  \<comment> \<open>the body of the loop, lines 36 to 142: the record and the warnings it appends\<close>
  "process_shift zone punch_df config srow =
     (let shift_date = sched_date srow;
          matches = punch_matches punch_df shift_date
      in if matches \<noteq> [] then
           (let warnings = (if length matches > 1 then [MultiplePunchRecords shift_date] else [])
            in bind_err (iloc0 matches) (\<lambda>prow.
               bind_err (read_punch zone srow prow) (\<lambda>a.
               bind_err (make_day_record config srow a) (\<lambda>r.
               Inr (r, warnings)))))
         else bind_err (make_day_record config srow no_punch) (\<lambda>r. Inr (r, [])))"

section \<open>build_attendance: the loop over the schedule\<close>

text \<open>
  \<^verbatim>\<open>for _, sched_row in schedule_df.iterrows(): ... day_records.append(day_record)\<close>,
  with the two lists the loop appends to as accumulators.
\<close>

fun attendance_loop ::
  "tzinfo \<Rightarrow> punch_row list \<Rightarrow> policy_config \<Rightarrow> sched_row list \<Rightarrow> day_record list
     \<Rightarrow> warning list \<Rightarrow> error + (day_record list \<times> warning list)" where
  "attendance_loop zone punch_df config [] day_records warnings = Inr (day_records, warnings)"
| "attendance_loop zone punch_df config (srow # rows) day_records warnings =
     bind_err (process_shift zone punch_df config srow) (\<lambda>(r, ws).
       attendance_loop zone punch_df config rows (day_records @ [r]) (warnings @ ws))"

section \<open>calculate_summary\<close>

text \<open>
  The body of \<^verbatim>\<open>calculate_summary\<close> after the early return for an empty list:
  \<^verbatim>\<open>
  scheduled_shifts = len(day_records)
  shifts_worked = sum(1 for record in day_records if record.present)
  tardy_count = sum(1 for record in day_records if record.tardy)
  early_dismissal_count = sum(1 for record in day_records if record.early_dismissal)
  scheduled_hours = sum(record.sched_minutes for record in day_records) / 60
  worked_hours = sum(record.worked_minutes_clipped for record in day_records) / 60
  attendance_pct_shifts = (shifts_worked / scheduled_shifts * 100) if scheduled_shifts > 0 else 0.0
  attendance_pct_hours = (worked_hours / scheduled_hours * 100) if scheduled_hours > 0 else 0.0
  \<close>
  and each of the four float fields of the Summary is \<^verbatim>\<open>round(..., 2)\<close> of its value.
\<close>

definition count_where :: "(day_record \<Rightarrow> bool) \<Rightarrow> day_record list \<Rightarrow> int" where
  \<comment> \<open>\<^verbatim>\<open>sum(1 for record in day_records if flag(record))\<close>, a sum of integers\<close>
  "count_where flag day_records = sum_list (map (\<lambda>_. 1) (filter flag day_records))"

definition calculate_summary :: "day_record list \<Rightarrow> error + summary" where
  "calculate_summary day_records =
     (if day_records = [] then
        Inr \<lparr>scheduled_shifts = 0, shifts_worked = 0, attendance_pct_shifts = 0,
             scheduled_hours = 0, worked_hours = 0, attendance_pct_hours = 0,
             tardy_count = 0, early_dismissal_count = 0\<rparr>
      else
        (let n_scheduled = int (length day_records);
             n_worked = count_where present day_records;
             n_tardy = count_where tardy day_records;
             n_early = count_where early_dismissal day_records;
             hours_scheduled = fl (fsum (map sched_minutes day_records) / 60);
             hours_worked = fl (fsum (map worked_minutes_clipped day_records) / 60)
         in bind_err (if n_scheduled > 0
                      then bind_err (truediv (of_int n_worked) (of_int n_scheduled))
                             (\<lambda>q. Inr (fl (q * 100)))
                      else Inr 0) (\<lambda>pct_shifts.
            bind_err (if hours_scheduled > 0
                      then bind_err (truediv hours_worked hours_scheduled)
                             (\<lambda>q. Inr (fl (q * 100)))
                      else Inr 0) (\<lambda>pct_hours.
            Inr \<lparr>scheduled_shifts = n_scheduled,
                 shifts_worked = n_worked,
                 attendance_pct_shifts = round2 pct_shifts,
                 scheduled_hours = round2 hours_scheduled,
                 worked_hours = round2 hours_worked,
                 attendance_pct_hours = round2 pct_hours,
                 tardy_count = n_tardy,
                 early_dismissal_count = n_early\<rparr>))))"

section \<open>build_attendance\<close>

text \<open>
  \<^verbatim>\<open>summary = calculate_summary(day_records); return day_records, summary, warnings\<close>
\<close>

definition build_attendance ::
  "tzinfo \<Rightarrow> punch_row list \<Rightarrow> sched_row list \<Rightarrow> policy_config
     \<Rightarrow> error + (day_record list \<times> summary \<times> warning list)" where
  "build_attendance zone punch_df schedule_df config =
     bind_err (attendance_loop zone punch_df config schedule_df [] []) (\<lambda>(day_records, warnings).
     bind_err (calculate_summary day_records) (\<lambda>s.
     Inr (day_records, s, warnings)))"

section \<open>Example inputs\<close>

definition default_policy :: policy_config where
  \<comment> \<open>\<^verbatim>\<open>PolicyConfig()\<close> with the defaults of \<^verbatim>\<open>models.py\<close>\<close>
  "default_policy =
     \<lparr>am = \<lparr>start = ''09:45'', finish = ''16:30'', cross_midnight = False\<rparr>,
      pm = \<lparr>start = ''16:00'', finish = ''00:15'', cross_midnight = True\<rparr>,
      tardy_minutes = 5, early_minutes = 15, timezone = ''America/New_York''\<rparr>"

definition est :: tzinfo where
  \<comment> \<open>a zone that is five hours behind UTC at every instant\<close>
  "est t = - 18000000000"

definition at_time :: "day_number \<Rightarrow> int \<Rightarrow> int \<Rightarrow> datetime" where
  \<comment> \<open>the instant at which the wall clock of \<open>est\<close> shows \<open>hour:minute\<close> on day \<open>d\<close>\<close>
  "at_time d hour minute = d * usec_per_day + (hour * 60 + minute) * 60000000 + 18000000000"

definition am_shift_on :: "day_number \<Rightarrow> sched_row" where
  \<comment> \<open>the AM shift \<^verbatim>\<open>parse_schedule\<close> builds from the default policy: 09:45 to 16:30\<close>
  "am_shift_on d =
     \<lparr>sched_date = d, sched_shift_type = AM,
      sched_start = at_time d 9 45, sched_end = at_time d 16 30\<rparr>"

definition pm_shift_on :: "day_number \<Rightarrow> sched_row" where
  \<comment> \<open>the PM shift of the default policy: 16:00 to 00:15 of the next day\<close>
  "pm_shift_on d =
     \<lparr>sched_date = d, sched_shift_type = PM,
      sched_start = at_time d 16 0, sched_end = at_time (d + 1) 0 15\<rparr>"

definition at_clock :: "day_number \<Rightarrow> int \<Rightarrow> int \<Rightarrow> int \<Rightarrow> datetime" where
  \<comment> \<open>as \<open>at_time\<close>, with seconds\<close>
  "at_clock d hour minute second = at_time d hour minute + second * 1000000"

definition pm_example_punch :: punch_row where
  \<comment> \<open>clock-in 15:58, clock-out at time of day 00:10 recorded on the same date, no lunch\<close>
  "pm_example_punch =
     \<lparr>punch_date = 1, in1 = Timestamp (at_time 1 15 58), out1 = PyNone, in2 = PyNone,
      out2 = Timestamp (at_time 1 0 10)\<rparr>"

definition pm_example_record :: day_record where
  \<comment> \<open>the DayRecord of \<open>pm_shift_on 1\<close> with \<open>pm_example_punch\<close>\<close>
  "pm_example_record =
     \<lparr>date = 1, shift_type = PM,
      sched_start_dt = at_time 1 16 0, sched_end_dt = at_time 2 0 15,
      actual_in = Timestamp (at_time 1 15 58), actual_out = Timestamp (at_time 2 0 10),
      actual_out1 = PyNone, actual_in2 = PyNone,
      sched_minutes = 495, worked_minutes = 492, worked_minutes_clipped = 492,
      attendance_fraction = fl (492 / 495),
      present = True, tardy = False, early_dismissal = False\<rparr>"

definition pm_example_summary :: summary where
  "pm_example_summary =
     \<lparr>scheduled_shifts = 1, shifts_worked = 1, attendance_pct_shifts = 100,
      scheduled_hours = 33 / 4, worked_hours = fl (82 / 10),
      attendance_pct_hours = fl (9939 / 100),
      tardy_count = 0, early_dismissal_count = 0\<rparr>"

definition test_present_record :: day_record where
  \<comment> \<open>the first record of \<^verbatim>\<open>test_calculate_summary_with_records\<close>\<close>
  "test_present_record =
     \<lparr>date = 1, shift_type = AM,
      sched_start_dt = at_time 1 9 45, sched_end_dt = at_time 1 16 30,
      actual_in = Timestamp (at_time 1 9 50), actual_out = Timestamp (at_time 1 16 30),
      actual_out1 = PyNone, actual_in2 = PyNone,
      sched_minutes = 405, worked_minutes = 400, worked_minutes_clipped = 400,
      attendance_fraction = fl (988 / 1000),
      present = True, tardy = True, early_dismissal = False\<rparr>"

definition test_absent_record :: day_record where
  \<comment> \<open>the second record of \<^verbatim>\<open>test_calculate_summary_with_records\<close>\<close>
  "test_absent_record =
     \<lparr>date = 2, shift_type = AM,
      sched_start_dt = at_time 2 9 45, sched_end_dt = at_time 2 16 30,
      actual_in = PyNone, actual_out = PyNone, actual_out1 = PyNone, actual_in2 = PyNone,
      sched_minutes = 405, worked_minutes = 0, worked_minutes_clipped = 0,
      attendance_fraction = 0,
      present = False, tardy = False, early_dismissal = False\<rparr>"

definition missing_clock_out_punches :: "punch_row list" where
  \<comment> \<open>day 2 has a clock-in and no clock-out; the \<^verbatim>\<open>out2\<close> column holds a timestamp on
     day 7, so the missing clock-out of day 2 is \<^verbatim>\<open>NaT\<close>; no lunch punches at all\<close>
  "missing_clock_out_punches =
     [\<lparr>punch_date = 2, in1 = Timestamp (at_time 2 16 0), out1 = PyNone, in2 = PyNone,
        out2 = NaT\<rparr>,
      \<lparr>punch_date = 7, in1 = Timestamp (at_time 7 9 0), out1 = PyNone, in2 = PyNone,
        out2 = Timestamp (at_time 7 12 0)\<rparr>]"


definition seconds_record :: "day_number \<Rightarrow> int \<Rightarrow> day_record" where
  \<comment> \<open>the DayRecord of the AM shift of day \<open>d\<close> for a punch row with clock-in 09:45:00, a
     clock-out \<open>worked_seconds\<close> later (before 16:30) and no lunch\<close>
  "seconds_record d worked_seconds =
     \<lparr>date = d, shift_type = AM,
      sched_start_dt = at_time d 9 45, sched_end_dt = at_time d 16 30,
      actual_in = Timestamp (at_time d 9 45),
      actual_out = Timestamp (at_time d 9 45 + worked_seconds * 1000000),
      actual_out1 = PyNone, actual_in2 = PyNone,
      sched_minutes = 405,
      worked_minutes = fl (of_int worked_seconds / 60),
      worked_minutes_clipped = fl (of_int worked_seconds / 60),
      attendance_fraction = fl (fl (of_int worked_seconds / 60) / 405),
      present = True, tardy = False,
      early_dismissal = (worked_seconds < 23400)\<rparr>"

definition seconds_summary :: "rat \<Rightarrow> summary" where
  \<comment> \<open>the Summary of three such records, one of them an early dismissal, up to \<open>worked_hours\<close>\<close>
  "seconds_summary hours =
     \<lparr>scheduled_shifts = 3, shifts_worked = 3, attendance_pct_shifts = 100,
      scheduled_hours = 81 / 4, worked_hours = hours, attendance_pct_hours = fl (9563 / 100),
      tardy_count = 0, early_dismissal_count = 1\<rparr>"

section \<open>Theorems\<close>

subsection \<open>Rounding to binary64 is monotone\<close>

lemma round_half_even_mono:
  assumes "x \<le> y"
  shows "round_half_even x \<le> round_half_even y"
proof -
  have fl: "\<lfloor>x\<rfloor> \<le> \<lfloor>y\<rfloor>"
    using assms by (rule floor_mono)
  have lo: "\<lfloor>y\<rfloor> \<le> round_half_even y"
    by (simp add: round_half_even_def Let_def)
  have hi: "round_half_even x \<le> \<lfloor>x\<rfloor> + 1"
    by (simp add: round_half_even_def Let_def)
  show ?thesis
  proof (cases "\<lfloor>x\<rfloor> < \<lfloor>y\<rfloor>")
    case True
    with lo hi show ?thesis by linarith
  next
    case False
    with fl have same: "\<lfloor>x\<rfloor> = \<lfloor>y\<rfloor>" by simp
    then have "x - of_int \<lfloor>x\<rfloor> \<le> y - of_int \<lfloor>y\<rfloor>"
      using assms by simp
    then show ?thesis
      using same by (auto simp add: round_half_even_def Let_def)
  qed
qed

lemma round_half_even_of_int: "round_half_even (of_int n) = n"
  by (simp add: round_half_even_def Let_def)

lemma round_half_even_bounds:
  "\<lfloor>x\<rfloor> \<le> round_half_even x" "round_half_even x \<le> \<lfloor>x\<rfloor> + 1"
  by (simp_all add: round_half_even_def Let_def)

lemma pow2_pos: "0 < pow2 e"
  by (simp add: pow2_def zero_less_power_int)

lemma pow2_add: "pow2 (a + b) = pow2 a * pow2 b"
  by (simp add: pow2_def power_int_add)

lemma pow2_nat: "0 \<le> e \<Longrightarrow> pow2 e = 2 ^ nat e"
  by (simp add: pow2_def power_int_nonneg_exp)

lemma pow2_neg: "pow2 (- e) = 1 / pow2 e"
  by (simp add: pow2_def power_int_minus_divide)

lemma pow2_mono: "a \<le> b \<Longrightarrow> pow2 a \<le> pow2 b"
  by (simp add: pow2_def power_int_increasing)

lemma pow2_strict_mono: "a < b \<Longrightarrow> pow2 a < pow2 b"
  by (simp add: pow2_def power_int_strict_increasing)

lemma floor_log2_bounds:
  assumes "0 < x"
  shows "pow2 (floor_log2 x) \<le> x" and "x < pow2 (floor_log2 x + 1)"
proof -
  have "pow2 (floor_log2 x) \<le> x \<and> x < pow2 (floor_log2 x + 1)"
  proof (cases "1 \<le> x")
    case True
    define n where "n = \<lfloor>x\<rfloor>"
    have n_pos: "0 < n"
      using True by (simp add: n_def)
    have k_pos: "1 \<le> bitlen n"
      using n_pos bitlen_eq_zero_iff [of n] bitlen_nonneg [of n] by linarith
    have b: "2 ^ nat (bitlen n - 1) \<le> n" "n < 2 ^ nat (bitlen n)"
      using bitlen_bounds [OF n_pos] by simp_all
    have "rat_of_int (2 ^ nat (bitlen n - 1)) \<le> rat_of_int n"
      using b(1) by (simp only: of_int_le_iff)
    then have "2 ^ nat (bitlen n - 1) \<le> rat_of_int n"
      by simp
    moreover have "rat_of_int n \<le> x"
      using floor_correct [of x] by (simp add: n_def)
    ultimately have "2 ^ nat (bitlen n - 1) \<le> x"
      by linarith
    then have lower: "pow2 (bitlen n - 1) \<le> x"
      using k_pos by (simp add: pow2_nat)
    have "n + 1 \<le> 2 ^ nat (bitlen n)"
      using b(2) by simp
    then have "rat_of_int (n + 1) \<le> rat_of_int (2 ^ nat (bitlen n))"
      by (simp only: of_int_le_iff)
    then have "rat_of_int n + 1 \<le> 2 ^ nat (bitlen n)"
      by simp
    moreover have "x < rat_of_int n + 1"
      using floor_correct [of x] by (simp add: n_def)
    ultimately have "x < 2 ^ nat (bitlen n)"
      by linarith
    then have upper: "x < pow2 (bitlen n)"
      using k_pos by (simp add: pow2_nat)
    show ?thesis
      using True lower upper by (simp add: floor_log2_def n_def)
  next
    case False
    define y where "y = 1 / x"
    define n where "n = \<lceil>y\<rceil> - 1"
    have y_gt: "1 < y"
      using False assms by (simp add: y_def)
    have n_pos: "0 < n"
      using y_gt by (simp add: n_def less_ceiling_iff)
    have k_pos: "1 \<le> bitlen n"
      using n_pos bitlen_eq_zero_iff [of n] bitlen_nonneg [of n] by linarith
    have b: "2 ^ nat (bitlen n - 1) \<le> n" "n < 2 ^ nat (bitlen n)"
      using bitlen_bounds [OF n_pos] by simp_all
    have n_lt: "rat_of_int n < y"
      using ceiling_correct [of y] by (simp add: n_def)
    have "rat_of_int (2 ^ nat (bitlen n - 1)) \<le> rat_of_int n"
      using b(1) by (simp only: of_int_le_iff)
    then have "2 ^ nat (bitlen n - 1) \<le> rat_of_int n"
      by simp
    with n_lt have "2 ^ nat (bitlen n - 1) < y"
      by linarith
    then have "pow2 (bitlen n - 1) < y"
      using k_pos by (simp add: pow2_nat)
    then have "pow2 (bitlen n - 1) * x < 1"
      using assms by (simp add: y_def field_simps)
    then have "x < 1 / pow2 (bitlen n - 1)"
      using pow2_pos [of "bitlen n - 1"] by (simp add: field_simps)
    then have upper: "x < pow2 (- bitlen n + 1)"
      using pow2_neg [of "bitlen n - 1"] by simp
    have "\<lceil>y\<rceil> \<le> 2 ^ nat (bitlen n)"
      using b(2) by (simp add: n_def)
    then have "rat_of_int \<lceil>y\<rceil> \<le> rat_of_int (2 ^ nat (bitlen n))"
      by (simp only: of_int_le_iff)
    then have "rat_of_int \<lceil>y\<rceil> \<le> 2 ^ nat (bitlen n)"
      by simp
    moreover have "y \<le> rat_of_int \<lceil>y\<rceil>"
      by simp
    ultimately have "y \<le> 2 ^ nat (bitlen n)"
      by linarith
    then have "y \<le> pow2 (bitlen n)"
      using k_pos by (simp add: pow2_nat)
    then have "1 \<le> pow2 (bitlen n) * x"
      using assms by (simp add: y_def field_simps)
    then have "1 / pow2 (bitlen n) \<le> x"
      using pow2_pos [of "bitlen n"] by (simp add: field_simps)
    then have lower: "pow2 (- bitlen n) \<le> x"
      by (simp add: pow2_neg)
    show ?thesis
      using False lower upper by (simp add: floor_log2_def n_def y_def)
  qed
  then show "pow2 (floor_log2 x) \<le> x" and "x < pow2 (floor_log2 x + 1)"
    by simp_all
qed

lemma floor_log2_mono:
  assumes "0 < x" and "x \<le> y"
  shows "floor_log2 x \<le> floor_log2 y"
proof (rule ccontr)
  assume "\<not> floor_log2 x \<le> floor_log2 y"
  then have "floor_log2 y + 1 \<le> floor_log2 x"
    by simp
  then have "pow2 (floor_log2 y + 1) \<le> pow2 (floor_log2 x)"
    by (rule pow2_mono)
  also have "\<dots> \<le> x"
    using floor_log2_bounds(1) [OF assms(1)] .
  finally have "pow2 (floor_log2 y + 1) \<le> y"
    using assms(2) by simp
  moreover have "y < pow2 (floor_log2 y + 1)"
    using floor_log2_bounds(2) [of y] assms by simp
  ultimately show False by simp
qed

lemma fl_exponent_mono:
  assumes "0 < x" and "x \<le> y"
  shows "fl_exponent x \<le> fl_exponent y"
  using floor_log2_mono [OF assms] by (simp add: fl_exponent_def)

lemma significand_less:
  assumes "0 < x"
  shows "x / pow2 (fl_exponent x) < 2 ^ 53"
proof -
  have "x < pow2 (floor_log2 x + 1)"
    using floor_log2_bounds(2) [OF assms] .
  also have "pow2 (floor_log2 x + 1) = pow2 ((floor_log2 x - 52) + 53)"
    by (simp add: algebra_simps)
  also have "\<dots> = pow2 (floor_log2 x - 52) * pow2 53"
    by (rule pow2_add)
  also have "\<dots> \<le> pow2 (fl_exponent x) * pow2 53"
    using pow2_mono [of "floor_log2 x - 52" "fl_exponent x"] pow2_pos [of 53]
    by (simp add: fl_exponent_def)
  finally have "x < pow2 (fl_exponent x) * 2 ^ 53"
    by (simp add: pow2_nat)
  then show ?thesis
    using pow2_pos [of "fl_exponent x"] by (simp add: field_simps)
qed

lemma significand_normal:
  assumes "0 < x" and "- 1074 < fl_exponent x"
  shows "2 ^ 52 \<le> x / pow2 (fl_exponent x)"
proof -
  have e: "fl_exponent x = floor_log2 x - 52"
    using assms(2) by (simp add: fl_exponent_def split: if_splits)
  have "pow2 (fl_exponent x) * pow2 52 = pow2 (fl_exponent x + 52)"
    by (simp only: pow2_add)
  also have "\<dots> = pow2 (floor_log2 x)"
    by (simp add: e)
  also have "\<dots> \<le> x"
    using floor_log2_bounds(1) [OF assms(1)] .
  finally have "pow2 (fl_exponent x) * 2 ^ 52 \<le> x"
    by (simp add: pow2_nat)
  then show ?thesis
    using pow2_pos [of "fl_exponent x"] by (simp add: field_simps)
qed

lemma fl_positive_mono:
  assumes "0 < x" and "x \<le> y"
  shows "of_int (round_half_even (x / pow2 (fl_exponent x))) * pow2 (fl_exponent x)
       \<le> of_int (round_half_even (y / pow2 (fl_exponent y))) * pow2 (fl_exponent y)"
proof -
  have y_pos: "0 < y"
    using assms by simp
  define ex where "ex = fl_exponent x"
  define ey where "ey = fl_exponent y"
  have le: "ex \<le> ey"
    using fl_exponent_mono [OF assms] by (simp add: ex_def ey_def)
  show ?thesis
  proof (cases "ex = ey")
    case True
    have "x / pow2 ex \<le> y / pow2 ex"
      using assms(2) pow2_pos [of ex] by (simp add: divide_right_mono)
    then have "round_half_even (x / pow2 ex) \<le> round_half_even (y / pow2 ex)"
      by (rule round_half_even_mono)
    then have "rat_of_int (round_half_even (x / pow2 ex)) * pow2 ex
             \<le> rat_of_int (round_half_even (y / pow2 ex)) * pow2 ex"
      using pow2_pos [of ex] by (simp add: mult_right_mono)
    then show ?thesis
      using True by (simp add: ex_def ey_def)
  next
    case False
    with le have lt: "ex < ey" by simp
    have "\<lfloor>x / pow2 ex\<rfloor> < 2 ^ 53"
      using significand_less [OF assms(1)] by (simp add: ex_def floor_less_iff)
    then have "round_half_even (x / pow2 ex) \<le> 2 ^ 53"
      using round_half_even_bounds(2) [of "x / pow2 ex"] by linarith
    then have "rat_of_int (round_half_even (x / pow2 ex)) \<le> rat_of_int (2 ^ 53)"
      by (simp only: of_int_le_iff)
    then have "rat_of_int (round_half_even (x / pow2 ex)) * pow2 ex \<le> 2 ^ 53 * pow2 ex"
      using pow2_pos [of ex] by (simp add: mult_right_mono)
    also have "2 ^ 53 * pow2 ex = pow2 ex * pow2 53"
      by (simp add: pow2_nat)
    also have "\<dots> = pow2 (ex + 53)"
      by (simp only: pow2_add)
    also have "\<dots> \<le> pow2 (ey + 52)"
      using lt by (intro pow2_mono) simp
    also have "pow2 (ey + 52) = pow2 ey * pow2 52"
      by (simp only: pow2_add)
    also have "\<dots> = 2 ^ 52 * pow2 ey"
      by (simp add: pow2_nat)
    finally have left: "rat_of_int (round_half_even (x / pow2 ex)) * pow2 ex \<le> 2 ^ 52 * pow2 ey" .
    have "- 1074 \<le> ex"
      by (simp add: ex_def fl_exponent_def)
    with lt have "- 1074 < fl_exponent y"
      by (simp add: ey_def)
    then have "2 ^ 52 \<le> y / pow2 ey"
      using significand_normal [OF y_pos] by (simp add: ey_def)
    then have "2 ^ 52 \<le> \<lfloor>y / pow2 ey\<rfloor>"
      by (simp add: le_floor_iff)
    then have "2 ^ 52 \<le> round_half_even (y / pow2 ey)"
      using round_half_even_bounds(1) [of "y / pow2 ey"] by linarith
    then have "rat_of_int (2 ^ 52) \<le> rat_of_int (round_half_even (y / pow2 ey))"
      by (simp only: of_int_le_iff)
    then have "2 ^ 52 * pow2 ey \<le> rat_of_int (round_half_even (y / pow2 ey)) * pow2 ey"
      using pow2_pos [of ey] by (simp add: mult_right_mono)
    with left show ?thesis
      by (simp add: ex_def ey_def)
  qed
qed

lemma fl_nonneg:
  assumes "0 \<le> x"
  shows "0 \<le> fl x"
proof (cases "x = 0")
  case True
  then show ?thesis by (simp add: fl_def)
next
  case False
  with assms have pos: "0 < x" by simp
  have "0 \<le> x / pow2 (fl_exponent x)"
    using pos pow2_pos [of "fl_exponent x"] by simp
  then have "0 \<le> \<lfloor>x / pow2 (fl_exponent x)\<rfloor>"
    by simp
  then have "0 \<le> round_half_even (x / pow2 (fl_exponent x))"
    using round_half_even_bounds(1) [of "x / pow2 (fl_exponent x)"] by linarith
  then show ?thesis
    using pos pow2_pos [of "fl_exponent x"] by (simp add: fl_def)
qed

lemma fl_minus: "fl (- x) = - fl x"
  by (simp add: fl_def sgn_minus)

lemma fl_mono:
  assumes "x \<le> y"
  shows "fl x \<le> fl y"
proof -
  have pos_case: "fl a \<le> fl b" if "0 < a" "a \<le> b" for a b
    using fl_positive_mono [OF that] that by (simp add: fl_def)
  show ?thesis
  proof (cases "0 < x")
    case True
    then show ?thesis using pos_case assms by simp
  next
    case False
    then have x_le: "x \<le> 0" by simp
    show ?thesis
    proof (cases "0 \<le> y")
      case True
      have "fl x = - fl (- x)"
        using fl_minus [of "- x"] by simp
      moreover have "0 \<le> fl (- x)"
        using x_le by (intro fl_nonneg) simp
      ultimately have "fl x \<le> 0" by simp
      with fl_nonneg [OF True] show ?thesis by simp
    next
      case False
      then have "0 < - y" "- y \<le> - x"
        using assms by simp_all
      then have "fl (- y) \<le> fl (- x)"
        by (rule pos_case)
      then show ?thesis
        by (simp add: fl_minus)
    qed
  qed
qed

lemma fl_0: "fl 0 = 0"
  by (simp add: fl_def)

lemma fl_1: "fl 1 = 1"
  by code_simp

lemma fl_100: "fl 100 = 100"
  by code_simp

lemma fl_between_0_1:
  assumes "0 \<le> x" and "x \<le> 1"
  shows "0 \<le> fl x" and "fl x \<le> 1"
  using fl_nonneg [OF assms(1)] fl_mono [OF assms(2)] by (simp_all add: fl_1)

lemma fl_between_0_100:
  assumes "0 \<le> x" and "x \<le> 100"
  shows "0 \<le> fl x" and "fl x \<le> 100"
  using fl_nonneg [OF assms(1)] fl_mono [OF assms(2)] by (simp_all add: fl_100)

lemma fl_positive:
  assumes "1 / 2 ^ 40 \<le> x"
  shows "0 < fl x"
proof -
  have "fl (1 / 2 ^ 40) = 1 / 2 ^ 40"
    by code_simp
  with fl_mono [OF assms] show ?thesis by simp
qed

lemma round2_mono: "x \<le> y \<Longrightarrow> round2 x \<le> round2 y"
  unfolding round2_def
  by (intro fl_mono divide_right_mono) (simp_all add: round_half_even_mono)

lemma round2_0: "round2 0 = 0"
  by code_simp

lemma round2_100: "round2 100 = 100"
  by code_simp

lemma round2_between:
  assumes "0 \<le> x" and "x \<le> 100"
  shows "0 \<le> round2 x" and "round2 x \<le> 100"
  using round2_mono [OF assms(1)] round2_mono [OF assms(2)]
  by (simp_all add: round2_0 round2_100)

lemma foldl_fl_mono:
  assumes "list_all2 (\<le>) xs ys" and "a \<le> b"
  shows "foldl (\<lambda>acc x. fl (acc + x)) a xs \<le> foldl (\<lambda>acc x. fl (acc + x)) b ys"
  using assms
proof (induction xs ys arbitrary: a b rule: list_all2_induct)
  case Nil
  then show ?case by simp
next
  case (Cons x xs y ys)
  have "fl (a + x) \<le> fl (b + y)"
    using Cons.hyps(1) Cons.prems by (intro fl_mono) simp
  then show ?case
    using Cons.IH by simp
qed

lemma fsum_mono:
  assumes "\<And>r. r \<in> set rs \<Longrightarrow> f r \<le> g r"
  shows "fsum (map f rs) \<le> fsum (map g rs)"
proof -
  have "list_all2 (\<le>) (map f rs) (map g rs)"
    using assms by (simp add: list_all2_conv_all_nth)
  then show ?thesis
    unfolding fsum_def by (rule foldl_fl_mono) simp
qed

lemma fsum_nonneg:
  assumes "\<And>r. r \<in> set rs \<Longrightarrow> 0 \<le> f r"
  shows "0 \<le> fsum (map f rs)"
proof -
  have "fsum (map (\<lambda>_. 0) rs) = 0"
    unfolding fsum_def by (induction rs) (simp_all add: fl_0)
  with fsum_mono [of rs "\<lambda>_. 0" f] assms show ?thesis by simp
qed

subsection \<open>One scheduled shift\<close>

lemma make_day_record_total:
  "\<exists>r. make_day_record config srow a = Inr r"
  by (cases "v_actual_in a"; cases "v_actual_out a")
    (simp_all add: make_day_record_def Let_def bind_err_def truediv_def cell_gt_def cell_lt_def
      truthy_def)

lemma make_day_record_fields:
  assumes "make_day_record config srow a = Inr r"
  shows "date r = sched_date srow"
    and "shift_type r = sched_shift_type srow"
    and "sched_start_dt r = sched_start srow"
    and "sched_end_dt r = sched_end srow"
    and "actual_in r = v_actual_in a"
    and "actual_out r = v_actual_out a"
    and "actual_out1 r = v_actual_out1 a"
    and "actual_in2 r = v_actual_in2 a"
    and "sched_minutes r = fl (total_seconds (sched_end srow - sched_start srow) / 60)"
    and "worked_minutes r = v_worked_minutes a"
    and "worked_minutes_clipped r = clamp (v_worked_minutes a) 0 (sched_minutes r)"
    and "attendance_fraction r =
           (if sched_minutes r > 0 then fl (worked_minutes_clipped r / sched_minutes r) else 0)"
    and "present r = v_present a"
    and "tardy r = (v_present a \<and> (case v_actual_in a of
               Timestamp t \<Rightarrow> t > sched_start srow + timedelta_minutes (tardy_minutes config)
             | _ \<Rightarrow> False))"
    and "early_dismissal r = (v_present a \<and> (case v_actual_out a of
               Timestamp t \<Rightarrow> t < sched_end srow - timedelta_minutes (early_minutes config)
             | _ \<Rightarrow> False))"
proof -
  define minutes where "minutes = fl (total_seconds (sched_end srow - sched_start srow) / 60)"
  define is_tardy where "is_tardy = (v_present a \<and> (case v_actual_in a of
               Timestamp t \<Rightarrow> t > sched_start srow + timedelta_minutes (tardy_minutes config)
             | _ \<Rightarrow> False))"
  define is_early where "is_early = (v_present a \<and> (case v_actual_out a of
               Timestamp t \<Rightarrow> t < sched_end srow - timedelta_minutes (early_minutes config)
             | _ \<Rightarrow> False))"
  have t: "(if v_present a \<and> truthy (v_actual_in a)
            then cell_gt (v_actual_in a)
                   (sched_start srow + timedelta_minutes (tardy_minutes config))
            else Inr False) = Inr is_tardy"
    by (cases "v_actual_in a") (simp_all add: is_tardy_def cell_gt_def truthy_def)
  have e: "(if v_present a \<and> truthy (v_actual_out a)
            then cell_lt (v_actual_out a)
                   (sched_end srow - timedelta_minutes (early_minutes config))
            else Inr False) = Inr is_early"
    by (cases "v_actual_out a") (simp_all add: is_early_def cell_lt_def truthy_def)
  have f: "(if minutes > 0 then truediv (clamp (v_worked_minutes a) 0 minutes) minutes else Inr 0)
      = Inr (if minutes > 0 then fl (clamp (v_worked_minutes a) 0 minutes / minutes) else 0)"
    by (simp add: truediv_def)
  have r: "r = \<lparr>date = sched_date srow,
              shift_type = sched_shift_type srow,
              sched_start_dt = sched_start srow,
              sched_end_dt = sched_end srow,
              actual_in = v_actual_in a,
              actual_out = v_actual_out a,
              actual_out1 = v_actual_out1 a,
              actual_in2 = v_actual_in2 a,
              sched_minutes = minutes,
              worked_minutes = v_worked_minutes a,
              worked_minutes_clipped = clamp (v_worked_minutes a) 0 minutes,
              attendance_fraction =
                (if minutes > 0 then fl (clamp (v_worked_minutes a) 0 minutes / minutes) else 0),
              present = v_present a,
              tardy = is_tardy,
              early_dismissal = is_early\<rparr>"
    using assms unfolding make_day_record_def Let_def minutes_def [symmetric] t e f
    by (simp add: bind_err_def)
  show "date r = sched_date srow"
    and "shift_type r = sched_shift_type srow"
    and "sched_start_dt r = sched_start srow"
    and "sched_end_dt r = sched_end srow"
    and "actual_in r = v_actual_in a"
    and "actual_out r = v_actual_out a"
    and "actual_out1 r = v_actual_out1 a"
    and "actual_in2 r = v_actual_in2 a"
    and "sched_minutes r = fl (total_seconds (sched_end srow - sched_start srow) / 60)"
    and "worked_minutes r = v_worked_minutes a"
    and "worked_minutes_clipped r = clamp (v_worked_minutes a) 0 (sched_minutes r)"
    and "attendance_fraction r =
           (if sched_minutes r > 0 then fl (worked_minutes_clipped r / sched_minutes r) else 0)"
    and "present r = v_present a"
    and "tardy r = (v_present a \<and> (case v_actual_in a of
               Timestamp t \<Rightarrow> t > sched_start srow + timedelta_minutes (tardy_minutes config)
             | _ \<Rightarrow> False))"
    and "early_dismissal r = (v_present a \<and> (case v_actual_out a of
               Timestamp t \<Rightarrow> t < sched_end srow - timedelta_minutes (early_minutes config)
             | _ \<Rightarrow> False))"
    by (simp_all add: r minutes_def is_tardy_def is_early_def)
qed

lemma cell_time_error:
  "truthy c \<Longrightarrow> cell_time zone c = Inl e \<Longrightarrow> e = ValueError"
  by (cases c) (simp_all add: cell_time_def truthy_def)

lemma adjust_actual_out_cases:
  assumes "truthy a_in" and "truthy a_out"
  shows "adjust_actual_out zone crosses a_in a_out =
     (if crosses then
        (case (a_out, a_in) of
           (Timestamp t_out, Timestamp t_in) \<Rightarrow>
             Inr (if dt_time zone t_out < dt_time zone t_in
                  then Timestamp (t_out + timedelta_days 1) else a_out)
         | _ \<Rightarrow> Inl ValueError)
      else Inr a_out)"
  using assms
  by (cases a_in; cases a_out)
    (simp_all add: adjust_actual_out_def cell_time_def cell_plus_def bind_err_def truthy_def)

lemma adjust_actual_in2_cases:
  "adjust_actual_in2 zone crosses a_out1 a_in2 =
     (if crosses \<and> truthy a_out1 \<and> truthy a_in2 then
        (case (a_in2, a_out1) of
           (Timestamp t_in2, Timestamp t_out1) \<Rightarrow>
             Inr (if dt_time zone t_in2 < dt_time zone t_out1
                  then Timestamp (t_in2 + timedelta_days 1) else a_in2)
         | _ \<Rightarrow> Inl ValueError)
      else Inr a_in2)"
  by (cases a_in2; cases a_out1)
    (simp_all add: adjust_actual_in2_def cell_time_def cell_plus_def bind_err_def truthy_def)

lemma adjust_actual_in2_truthy:
  "adjust_actual_in2 zone crosses a_out1 a_in2 = Inr c \<Longrightarrow> truthy c = truthy a_in2"
  by (cases a_in2; cases a_out1)
    (auto simp add: adjust_actual_in2_cases truthy_def split: if_splits)

lemma adjust_actual_out_truthy:
  "truthy a_in \<Longrightarrow> truthy a_out \<Longrightarrow> adjust_actual_out zone crosses a_in a_out = Inr c
     \<Longrightarrow> truthy c"
  by (cases a_in; cases a_out)
    (auto simp add: adjust_actual_out_cases truthy_def split: if_splits)

lemma lunch_minutes_of_total:
  "\<exists>m. lunch_minutes_of a_out1 a_in2 = Inr m \<and> 0 \<le> m"
  by (cases a_out1; cases a_in2)
    (simp_all add: lunch_minutes_of_def cell_minus_def bind_err_def truthy_def)

lemma cell_minus_total:
  "truthy c \<Longrightarrow> truthy d \<Longrightarrow> \<exists>td. cell_minus c d = Inr td"
  by (cases c; cases d) (simp_all add: cell_minus_def truthy_def)

lemma worked_minutes_of_nonneg: "0 \<le> worked_minutes_of td lunch"
  by (cases td) (simp_all add: worked_minutes_of_def)

lemma read_punch_absent:
  assumes "\<not> (truthy (in1 prow) \<and> truthy (out2 prow))"
  shows "read_punch zone srow prow =
     Inr \<lparr>v_actual_in = in1 prow, v_actual_out = out2 prow,
          v_actual_out1 = out1 prow, v_actual_in2 = in2 prow,
          v_worked_minutes = 0, v_present = truthy (in1 prow)\<rparr>"
  using assms by (auto simp add: read_punch_def Let_def)

lemma read_punch_present:
  assumes "truthy (in1 prow)" and "truthy (out2 prow)"
  shows "read_punch zone srow prow = Inl ValueError \<or>
     (\<exists>a_out a_in2 lunch td.
        adjust_actual_out zone (dt_date zone (sched_start srow) < dt_date zone (sched_end srow))
          (in1 prow) (out2 prow) = Inr a_out \<and>
        adjust_actual_in2 zone (dt_date zone (sched_start srow) < dt_date zone (sched_end srow))
          (out1 prow) (in2 prow) = Inr a_in2 \<and>
        lunch_minutes_of (out1 prow) a_in2 = Inr lunch \<and> 0 \<le> lunch \<and>
        cell_minus a_out (in1 prow) = Inr td \<and>
        read_punch zone srow prow =
          Inr \<lparr>v_actual_in = in1 prow, v_actual_out = a_out,
               v_actual_out1 = out1 prow, v_actual_in2 = a_in2,
               v_worked_minutes = worked_minutes_of td lunch, v_present = True\<rparr>)"
proof -
  let ?crosses = "dt_date zone (sched_start srow) < dt_date zone (sched_end srow)"
  show ?thesis
  proof (cases "adjust_actual_out zone ?crosses (in1 prow) (out2 prow)")
    case (Inl e)
    then have "e = ValueError"
      using assms
      by (cases "in1 prow"; cases "out2 prow")
        (auto simp add: adjust_actual_out_cases truthy_def split: if_splits)
    with Inl show ?thesis
      using assms by (simp add: read_punch_def Let_def bind_err_def)
  next
    case out: (Inr a_out)
    have a_out_truthy: "truthy a_out"
      using adjust_actual_out_truthy [OF assms out] .
    show ?thesis
    proof (cases "adjust_actual_in2 zone ?crosses (out1 prow) (in2 prow)")
      case (Inl e)
      then have "e = ValueError"
        by (cases "in2 prow"; cases "out1 prow")
          (auto simp add: adjust_actual_in2_cases truthy_def split: if_splits)
      with Inl out show ?thesis
        using assms by (simp add: read_punch_def Let_def bind_err_def)
    next
      case in2: (Inr a_in2)
      obtain lunch where lunch: "lunch_minutes_of (out1 prow) a_in2 = Inr lunch" "0 \<le> lunch"
        using lunch_minutes_of_total by blast
      obtain td where td: "cell_minus a_out (in1 prow) = Inr td"
        using cell_minus_total [OF a_out_truthy assms(1)] by blast
      have "read_punch zone srow prow =
          Inr \<lparr>v_actual_in = in1 prow, v_actual_out = a_out,
               v_actual_out1 = out1 prow, v_actual_in2 = a_in2,
               v_worked_minutes = worked_minutes_of td lunch, v_present = True\<rparr>"
        using assms out in2 lunch(1) td by (simp add: read_punch_def Let_def bind_err_def)
      with out in2 lunch td show ?thesis by blast
    qed
  qed
qed

lemma read_punch_error:
  assumes "read_punch zone srow prow = Inl e"
  shows "e = ValueError"
proof (cases "truthy (in1 prow) \<and> truthy (out2 prow)")
  case True
  with read_punch_present [of prow zone srow] assms show ?thesis by auto
next
  case False
  from read_punch_absent [OF this, of zone srow] assms show ?thesis by simp
qed

lemma read_punch_fields:
  assumes "read_punch zone srow prow = Inr a"
  shows "v_actual_in a = in1 prow"
    and "v_actual_out1 a = out1 prow"
    and "v_present a = truthy (in1 prow)"
    and "0 \<le> v_worked_minutes a"
proof -
  have "v_actual_in a = in1 prow \<and> v_actual_out1 a = out1 prow \<and>
        v_present a = truthy (in1 prow) \<and> 0 \<le> v_worked_minutes a"
  proof (cases "truthy (in1 prow) \<and> truthy (out2 prow)")
    case True
    with read_punch_present [of prow zone srow] assms show ?thesis
      by (auto simp add: worked_minutes_of_nonneg)
  next
    case False
    from read_punch_absent [OF this, of zone srow] assms show ?thesis by auto
  qed
  then show "v_actual_in a = in1 prow"
    and "v_actual_out1 a = out1 prow"
    and "v_present a = truthy (in1 prow)"
    and "0 \<le> v_worked_minutes a"
    by simp_all
qed

lemma process_shift_no_match:
  assumes "punch_matches punch_df (sched_date srow) = []"
  shows "\<exists>r. make_day_record config srow no_punch = Inr r \<and>
             process_shift zone punch_df config srow = Inr (r, [])"
  using assms make_day_record_total [of config srow no_punch]
  by (auto simp add: process_shift_def bind_err_def)

lemma process_shift_match:
  assumes "punch_matches punch_df (sched_date srow) = prow # rest"
  shows "process_shift zone punch_df config srow =
     bind_err (read_punch zone srow prow) (\<lambda>a.
     bind_err (make_day_record config srow a) (\<lambda>r.
     Inr (r, if rest = [] then [] else [MultiplePunchRecords (sched_date srow)])))"
  using assms by (simp add: process_shift_def bind_err_def iloc0_def)

lemma shift_record_no_match:
  assumes "punch_matches punch_df (sched_date srow) = []"
    and "process_shift zone punch_df config srow = Inr (r, w)"
  shows "make_day_record config srow no_punch = Inr r" and "w = []"
  using process_shift_no_match [OF assms(1), of config zone] assms(2) by auto

lemma shift_record_match:
  assumes "punch_matches punch_df (sched_date srow) = prow # rest"
    and "process_shift zone punch_df config srow = Inr (r, w)"
  shows "\<exists>a. read_punch zone srow prow = Inr a \<and> make_day_record config srow a = Inr r"
    and "w = (if rest = [] then [] else [MultiplePunchRecords (sched_date srow)])"
  using assms(2) unfolding process_shift_match [OF assms(1)]
  by (auto simp add: bind_err_def split: sum.splits)

lemma process_shift_error:
  assumes "process_shift zone punch_df config srow = Inl e"
  shows "e = ValueError"
proof (cases "punch_matches punch_df (sched_date srow)")
  case Nil
  from process_shift_no_match [OF this, of config zone] assms show ?thesis by auto
next
  case (Cons prow rest)
  show ?thesis
  proof (cases "read_punch zone srow prow")
    case (Inl e')
    with assms read_punch_error [OF Inl] show ?thesis
      unfolding process_shift_match [OF Cons] by (simp add: bind_err_def)
  next
    case (Inr a)
    with assms make_day_record_total [of config srow a] show ?thesis
      unfolding process_shift_match [OF Cons] by (auto simp add: bind_err_def)
  qed
qed

subsection \<open>The loop and the summary\<close>

lemma attendance_loop_result:
  assumes "attendance_loop zone punch_df config rows day_records warnings = Inr (out, ws_out)"
  shows "\<exists>rs ws. out = day_records @ rs \<and> ws_out = warnings @ ws \<and>
           length rs = length rows \<and>
           (\<forall>i<length rows.
              \<exists>w. process_shift zone punch_df config (rows ! i) = Inr (rs ! i, w) \<and>
                  set w \<subseteq> set ws)"
  using assms
proof (induction rows arbitrary: day_records warnings)
  case Nil
  then show ?case by simp
next
  case (Cons srow rows)
  from Cons.prems obtain r w where
    step: "process_shift zone punch_df config srow = Inr (r, w)"
    and run: "attendance_loop zone punch_df config rows (day_records @ [r]) (warnings @ w)
                = Inr (out, ws_out)"
    by (auto simp add: bind_err_def split: sum.splits)
  from Cons.IH [OF run] obtain rs ws where
    out: "out = (day_records @ [r]) @ rs" and ws_out: "ws_out = (warnings @ w) @ ws"
    and len: "length rs = length rows"
    and each: "\<forall>i<length rows.
        \<exists>w'. process_shift zone punch_df config (rows ! i) = Inr (rs ! i, w') \<and>
             set w' \<subseteq> set ws"
    by blast
  have "out = day_records @ (r # rs)" "ws_out = warnings @ (w @ ws)"
    using out ws_out by simp_all
  moreover have "length (r # rs) = length (srow # rows)"
    using len by simp
  moreover have "\<forall>i<length (srow # rows).
      \<exists>w'. process_shift zone punch_df config ((srow # rows) ! i) = Inr ((r # rs) ! i, w') \<and>
           set w' \<subseteq> set (w @ ws)"
  proof (intro allI impI)
    fix i assume lt: "i < length (srow # rows)"
    show "\<exists>w'. process_shift zone punch_df config ((srow # rows) ! i) = Inr ((r # rs) ! i, w') \<and>
           set w' \<subseteq> set (w @ ws)"
    proof (cases i)
      case 0
      then show ?thesis using step by auto
    next
      case (Suc j)
      with lt have "j < length rows" by simp
      with each obtain w' where
        "process_shift zone punch_df config (rows ! j) = Inr (rs ! j, w')" "set w' \<subseteq> set ws"
        by blast
      then show ?thesis using Suc by auto
    qed
  qed
  ultimately show ?case by blast
qed

lemma attendance_loop_error:
  assumes "attendance_loop zone punch_df config rows day_records warnings = Inl e"
  shows "e = ValueError"
  using assms
proof (induction rows arbitrary: day_records warnings)
  case Nil
  then show ?case by simp
next
  case (Cons srow rows)
  show ?case
  proof (cases "process_shift zone punch_df config srow")
    case (Inl e')
    with Cons.prems process_shift_error [OF Inl] show ?thesis
      by (simp add: bind_err_def)
  next
    case (Inr p)
    with Cons.prems Cons.IH show ?thesis
      by (cases p) (auto simp add: bind_err_def)
  qed
qed

lemma count_where_bounds:
  "0 \<le> count_where flag rs" "count_where flag rs \<le> int (length rs)"
  unfolding count_where_def by (induction rs) auto

lemma calculate_summary_total:
  "\<exists>s. calculate_summary rs = Inr s"
  by (simp add: calculate_summary_def Let_def bind_err_def truediv_def)

lemma build_attendance_result:
  assumes "build_attendance zone punch_df schedule_df config = Inr (day_records, s, warnings)"
  shows "length day_records = length schedule_df"
    and "calculate_summary day_records = Inr s"
    and "\<forall>i<length schedule_df.
        \<exists>w. process_shift zone punch_df config (schedule_df ! i) = Inr (day_records ! i, w) \<and>
            set w \<subseteq> set warnings"
proof -
  from assms have
    run: "attendance_loop zone punch_df config schedule_df [] [] = Inr (day_records, warnings)"
    and summ: "calculate_summary day_records = Inr s"
    by (auto simp add: build_attendance_def bind_err_def split: sum.splits)
  from attendance_loop_result [OF run] show "length day_records = length schedule_df"
    and "\<forall>i<length schedule_df.
        \<exists>w. process_shift zone punch_df config (schedule_df ! i) = Inr (day_records ! i, w) \<and>
            set w \<subseteq> set warnings"
    by auto
  from summ show "calculate_summary day_records = Inr s" .
qed

lemma build_attendance_record:
  assumes "build_attendance zone punch_df schedule_df config = Inr (day_records, s, warnings)"
    and "i < length schedule_df"
  shows "\<exists>w. process_shift zone punch_df config (schedule_df ! i) = Inr (day_records ! i, w) \<and>
            set w \<subseteq> set warnings"
  using build_attendance_result(3) [OF assms(1)] assms(2) by blast

lemma build_attendance_error:
  assumes "build_attendance zone punch_df schedule_df config = Inl e"
  shows "e = ValueError"
proof (cases "attendance_loop zone punch_df config schedule_df [] []")
  case (Inl e')
  with assms attendance_loop_error [OF Inl] show ?thesis
    by (simp add: build_attendance_def bind_err_def)
next
  case (Inr p)
  with assms calculate_summary_total [of "fst p"] show ?thesis
    by (cases p) (auto simp add: build_attendance_def bind_err_def)
qed

subsection \<open>Scheduled minutes\<close>

lemma fl_keeps_lower_bound:
  assumes "1 / 2 ^ 20 \<le> x"
  shows "1 / 2 ^ 20 \<le> fl x"
proof -
  have "fl (1 / 2 ^ 20) = 1 / 2 ^ 20"
    by code_simp
  with fl_mono [OF assms] show ?thesis by simp
qed

lemma minutes_of_duration:
  shows "0 \<le> d \<Longrightarrow> 0 \<le> fl (total_seconds d / 60)"
    and "0 < d \<Longrightarrow> 0 < fl (total_seconds d / 60)"
    and "fl (total_seconds 0 / 60) = 0"
proof -
  show "0 \<le> fl (total_seconds d / 60)" if "0 \<le> d"
  proof -
    have "0 \<le> total_seconds d"
      unfolding total_seconds_def using that by (intro fl_nonneg) simp
    then show ?thesis
      by (intro fl_nonneg) simp
  qed
  show "0 < fl (total_seconds d / 60)" if "0 < d"
  proof -
    have "1 \<le> rat_of_int d"
      using that by simp
    then have "1 / 2 ^ 20 \<le> rat_of_int d / 1000000"
      by simp
    then have "1 / 2 ^ 20 \<le> total_seconds d"
      unfolding total_seconds_def by (rule fl_keeps_lower_bound)
    then have "1 / 2 ^ 40 \<le> total_seconds d / 60"
      by simp
    then show ?thesis
      by (rule fl_positive)
  qed
  show "fl (total_seconds 0 / 60) = 0"
    by (simp add: total_seconds_def fl_0)
qed

subsection \<open>Bounds on the summary\<close>

lemma process_shift_record_props:
  assumes "process_shift zone punch_df config srow = Inr (r, w)"
  shows "tardy r \<Longrightarrow> present r"
    and "early_dismissal r \<Longrightarrow> present r"
    and "0 \<le> worked_minutes_clipped r"
    and "sched_start srow \<le> sched_end srow \<Longrightarrow> worked_minutes_clipped r \<le> sched_minutes r"
proof -
  have "\<exists>a. make_day_record config srow a = Inr r"
  proof (cases "punch_matches punch_df (sched_date srow)")
    case Nil
    from shift_record_no_match(1) [OF this assms] show ?thesis by blast
  next
    case (Cons prow rest)
    from shift_record_match(1) [OF this assms] show ?thesis by blast
  qed
  then obtain a where made: "make_day_record config srow a = Inr r"
    by blast
  show "tardy r \<Longrightarrow> present r"
    using make_day_record_fields(13,14) [OF made] by simp
  show "early_dismissal r \<Longrightarrow> present r"
    using make_day_record_fields(13,15) [OF made] by simp
  show "0 \<le> worked_minutes_clipped r"
    using make_day_record_fields(11) [OF made] by (simp add: clamp_def)
  show "worked_minutes_clipped r \<le> sched_minutes r" if "sched_start srow \<le> sched_end srow"
  proof -
    have "0 \<le> sched_minutes r"
      using that make_day_record_fields(9) [OF made]
        minutes_of_duration(1) [of "sched_end srow - sched_start srow"] by simp
    then show ?thesis
      using make_day_record_fields(11) [OF made] by (simp add: clamp_def)
  qed
qed

lemma count_where_le:
  assumes "\<And>r. r \<in> set rs \<Longrightarrow> p r \<Longrightarrow> q r"
  shows "count_where p rs \<le> count_where q rs"
  using assms unfolding count_where_def by (induction rs) auto

lemma percentage_bounds:
  assumes "0 \<le> a" and "a \<le> b" and "0 < b"
  shows "0 \<le> round2 (fl (fl (a / b) * 100))" and "round2 (fl (fl (a / b) * 100)) \<le> 100"
proof -
  define q where "q = fl (a / b)"
  have "0 \<le> a / b" "a / b \<le> 1"
    using assms by (simp_all add: divide_le_eq_1)
  then have "0 \<le> q" "q \<le> 1"
    using fl_between_0_1 [of "a / b"] by (simp_all add: q_def)
  then have "0 \<le> q * 100" "q * 100 \<le> 100"
    by simp_all
  then have "0 \<le> fl (q * 100)" "fl (q * 100) \<le> 100"
    by (rule fl_between_0_100)+
  then have "0 \<le> round2 (fl (q * 100))" "round2 (fl (q * 100)) \<le> 100"
    by (rule round2_between)+
  then show "0 \<le> round2 (fl (fl (a / b) * 100))" and "round2 (fl (fl (a / b) * 100)) \<le> 100"
    by (simp_all only: q_def)
qed

lemma calculate_summary_bounds:
  assumes ok: "\<And>r. r \<in> set rs \<Longrightarrow>
      (tardy r \<longrightarrow> present r) \<and> (early_dismissal r \<longrightarrow> present r) \<and>
      0 \<le> worked_minutes_clipped r \<and> worked_minutes_clipped r \<le> sched_minutes r"
    and s: "calculate_summary rs = Inr s"
  shows "0 \<le> shifts_worked s \<and> shifts_worked s \<le> scheduled_shifts s \<and>
     tardy_count s \<le> shifts_worked s \<and> early_dismissal_count s \<le> shifts_worked s \<and>
     worked_hours s \<le> scheduled_hours s \<and>
     0 \<le> attendance_pct_shifts s \<and> attendance_pct_shifts s \<le> 100 \<and>
     0 \<le> attendance_pct_hours s \<and> attendance_pct_hours s \<le> 100"
proof (cases "rs = []")
  case True
  with s show ?thesis by (auto simp add: calculate_summary_def)
next
  case False
  define n where "n = int (length rs)"
  define k where "k = count_where present rs"
  define H where "H = fl (fsum (map sched_minutes rs) / 60)"
  define W where "W = fl (fsum (map worked_minutes_clipped rs) / 60)"
  have n_pos: "0 < n"
    using False by (simp add: n_def)
  have k_lo: "0 \<le> k" and k_hi: "k \<le> n"
    using count_where_bounds [of present rs] by (simp_all add: k_def n_def)
  have "0 \<le> fsum (map worked_minutes_clipped rs)"
    by (rule fsum_nonneg) (use ok in auto)
  then have W_lo: "0 \<le> W"
    unfolding W_def by (intro fl_nonneg) simp
  have "fsum (map worked_minutes_clipped rs) \<le> fsum (map sched_minutes rs)"
    by (rule fsum_mono) (use ok in auto)
  then have W_hi: "W \<le> H"
    unfolding W_def H_def by (intro fl_mono) simp
  have pct_shifts: "0 \<le> round2 (fl (fl (rat_of_int k / rat_of_int n) * 100))"
    "round2 (fl (fl (rat_of_int k / rat_of_int n) * 100)) \<le> 100"
    using percentage_bounds [of "rat_of_int k" "rat_of_int n"] n_pos k_lo k_hi by simp_all
  have pct_hours: "0 \<le> round2 (fl (fl (W / H) * 100)) \<and> round2 (fl (fl (W / H) * 100)) \<le> 100"
    if "0 < H"
    using percentage_bounds [OF W_lo W_hi that] by simp
  have s_eq: "s = \<lparr>scheduled_shifts = n, shifts_worked = k,
       attendance_pct_shifts = round2 (fl (fl (rat_of_int k / rat_of_int n) * 100)),
       scheduled_hours = round2 H, worked_hours = round2 W,
       attendance_pct_hours = round2 (if 0 < H then fl (fl (W / H) * 100) else 0),
       tardy_count = count_where tardy rs,
       early_dismissal_count = count_where early_dismissal rs\<rparr>"
    using s False n_pos
    by (auto simp add: calculate_summary_def Let_def bind_err_def truediv_def
        n_def k_def H_def W_def)
  have "tardy_count s \<le> shifts_worked s"
    using count_where_le [of rs tardy present] ok by (simp add: s_eq k_def)
  moreover have "early_dismissal_count s \<le> shifts_worked s"
    using count_where_le [of rs early_dismissal present] ok by (simp add: s_eq k_def)
  moreover have "worked_hours s \<le> scheduled_hours s"
    using round2_mono [OF W_hi] by (simp add: s_eq)
  moreover have "0 \<le> attendance_pct_shifts s" "attendance_pct_shifts s \<le> 100"
    using pct_shifts by (simp_all add: s_eq)
  moreover have "0 \<le> attendance_pct_hours s" "attendance_pct_hours s \<le> 100"
    using pct_hours by (auto simp add: s_eq round2_0)
  ultimately show ?thesis
    using k_lo k_hi by (simp add: s_eq)
qed

subsection \<open>Runs that return\<close>

lemma read_punch_returns:
  assumes "in1 prow \<noteq> NaT" and "out2 prow \<noteq> NaT" and "out1 prow \<noteq> NaT" and "in2 prow \<noteq> NaT"
  shows "\<exists>a. read_punch zone srow prow = Inr a"
proof (cases "truthy (in1 prow) \<and> truthy (out2 prow)")
  case False
  from read_punch_absent [OF this] show ?thesis by blast
next
  case True
  let ?crosses = "dt_date zone (sched_start srow) < dt_date zone (sched_end srow)"
  consider "read_punch zone srow prow = Inl ValueError" | a where "read_punch zone srow prow = Inr a"
    using read_punch_present [of prow zone srow] True by blast
  then show ?thesis
  proof cases
    case 1
    have out: "\<exists>c. adjust_actual_out zone ?crosses (in1 prow) (out2 prow) = Inr c \<and> truthy c"
      using True assms(1,2)
      by (cases "in1 prow"; cases "out2 prow")
        (auto simp add: adjust_actual_out_cases truthy_def)
    have in2: "\<exists>c. adjust_actual_in2 zone ?crosses (out1 prow) (in2 prow) = Inr c"
      using assms(3,4)
      by (cases "in2 prow"; cases "out1 prow")
        (auto simp add: adjust_actual_in2_cases truthy_def)
    from out obtain a_out where a_out:
      "adjust_actual_out zone ?crosses (in1 prow) (out2 prow) = Inr a_out" "truthy a_out"
      by blast
    from in2 obtain a_in2 where a_in2:
      "adjust_actual_in2 zone ?crosses (out1 prow) (in2 prow) = Inr a_in2"
      by blast
    obtain lunch where lunch: "lunch_minutes_of (out1 prow) a_in2 = Inr lunch"
      using lunch_minutes_of_total by blast
    obtain td where td: "cell_minus a_out (in1 prow) = Inr td"
      using cell_minus_total [OF a_out(2)] True by blast
    have "\<exists>a. read_punch zone srow prow = Inr a"
      using True a_out(1) a_in2 lunch td by (simp add: read_punch_def Let_def bind_err_def)
    with 1 show ?thesis by simp
  next
    case 2
    then show ?thesis by blast
  qed
qed

lemma process_shift_returns:
  assumes "\<forall>p \<in> set punch_df. in1 p \<noteq> NaT \<and> out2 p \<noteq> NaT \<and> out1 p \<noteq> NaT \<and> in2 p \<noteq> NaT"
  shows "\<exists>r w. process_shift zone punch_df config srow = Inr (r, w)"
proof (cases "punch_matches punch_df (sched_date srow)")
  case Nil
  from process_shift_no_match [OF this] show ?thesis by blast
next
  case (Cons prow rest)
  then have "prow \<in> set (punch_matches punch_df (sched_date srow))"
    by simp
  then have "prow \<in> set punch_df"
    by (simp add: punch_matches_def)
  with assms obtain a where a: "read_punch zone srow prow = Inr a"
    using read_punch_returns [of prow zone srow] by blast
  obtain r where "make_day_record config srow a = Inr r"
    using make_day_record_total by blast
  with a show ?thesis
    unfolding process_shift_match [OF Cons] by (simp add: bind_err_def)
qed

lemma attendance_loop_returns:
  assumes "\<forall>srow \<in> set rows. \<exists>r w. process_shift zone punch_df config srow = Inr (r, w)"
  shows "\<exists>out ws. attendance_loop zone punch_df config rows day_records warnings = Inr (out, ws)"
  using assms
proof (induction rows arbitrary: day_records warnings)
  case Nil
  show ?case by simp
next
  case (Cons srow rows)
  then obtain r w where step: "process_shift zone punch_df config srow = Inr (r, w)"
    by auto
  from Cons.IH [of "day_records @ [r]" "warnings @ w"] Cons.prems obtain out ws where
    "attendance_loop zone punch_df config rows (day_records @ [r]) (warnings @ w) = Inr (out, ws)"
    by auto
  with step show ?case by (simp add: bind_err_def)
qed

lemma build_attendance_returns:
  assumes "\<forall>p \<in> set punch_df. in1 p \<noteq> NaT \<and> out2 p \<noteq> NaT \<and> out1 p \<noteq> NaT \<and> in2 p \<noteq> NaT"
  shows "\<exists>day_records s warnings.
     build_attendance zone punch_df schedule_df config = Inr (day_records, s, warnings)"
proof -
  have "\<forall>srow \<in> set schedule_df. \<exists>r w. process_shift zone punch_df config srow = Inr (r, w)"
    using process_shift_returns [OF assms] by blast
  from attendance_loop_returns [OF this] obtain out ws where
    run: "attendance_loop zone punch_df config schedule_df [] [] = Inr (out, ws)"
    by blast
  obtain s where "calculate_summary out = Inr s"
    using calculate_summary_total by blast
  with run show ?thesis
    by (simp add: build_attendance_def bind_err_def)
qed

subsection \<open>The cross-midnight adjustments\<close>

lemma read_punch_cross_midnight:
  assumes "in1 prow = Timestamp clock_in" and "out2 prow = Timestamp clock_out"
    and "dt_date zone (sched_start srow) < dt_date zone (sched_end srow)"
    and "dt_time zone clock_out < dt_time zone clock_in"
    and "read_punch zone srow prow = Inr a"
  shows "v_actual_out a = Timestamp (clock_out + timedelta_days 1)"
    and "\<exists>lunch. lunch_minutes_of (out1 prow) (v_actual_in2 a) = Inr lunch \<and> 0 \<le> lunch \<and>
           v_worked_minutes a =
             max 0 (fl (fl (total_seconds (clock_out + timedelta_days 1 - clock_in) / 60) - lunch))"
proof -
  have t: "truthy (in1 prow)" "truthy (out2 prow)"
    using assms(1,2) by (simp_all add: truthy_def)
  from read_punch_present [OF t, of zone srow] assms(5) obtain a_out a_in2 lunch td where
    out: "adjust_actual_out zone (dt_date zone (sched_start srow) < dt_date zone (sched_end srow))
            (in1 prow) (out2 prow) = Inr a_out"
    and lunch: "lunch_minutes_of (out1 prow) a_in2 = Inr lunch" "0 \<le> lunch"
    and td: "cell_minus a_out (in1 prow) = Inr td"
    and a: "a = \<lparr>v_actual_in = in1 prow, v_actual_out = a_out,
               v_actual_out1 = out1 prow, v_actual_in2 = a_in2,
               v_worked_minutes = worked_minutes_of td lunch, v_present = True\<rparr>"
    by auto
  have a_out: "a_out = Timestamp (clock_out + timedelta_days 1)"
    using out assms(1-4) by (simp add: adjust_actual_out_cases truthy_def)
  have "td = Some (clock_out + timedelta_days 1 - clock_in)"
    using td assms(1) by (simp add: a_out cell_minus_def)
  then have "v_worked_minutes a =
      max 0 (fl (fl (total_seconds (clock_out + timedelta_days 1 - clock_in) / 60) - lunch))"
    by (simp add: a worked_minutes_of_def)
  with lunch show "\<exists>lunch. lunch_minutes_of (out1 prow) (v_actual_in2 a) = Inr lunch \<and> 0 \<le> lunch \<and>
           v_worked_minutes a =
             max 0 (fl (fl (total_seconds (clock_out + timedelta_days 1 - clock_in) / 60) - lunch))"
    by (auto simp add: a)
  show "v_actual_out a = Timestamp (clock_out + timedelta_days 1)"
    by (simp add: a a_out)
qed

lemma read_punch_lunch_in:
  assumes "read_punch zone srow prow = Inr a"
  shows "v_actual_in2 a =
       (if truthy (in1 prow) \<and> truthy (out2 prow) \<and>
           dt_date zone (sched_start srow) < dt_date zone (sched_end srow) \<and>
           (\<exists>o1 i2. out1 prow = Timestamp o1 \<and> in2 prow = Timestamp i2 \<and>
                     dt_time zone i2 < dt_time zone o1)
        then (case in2 prow of Timestamp i2 \<Rightarrow> Timestamp (i2 + timedelta_days 1) | c \<Rightarrow> c)
        else in2 prow)"
proof (cases "truthy (in1 prow) \<and> truthy (out2 prow)")
  case False
  from read_punch_absent [OF this, of zone srow] assms False show ?thesis by auto
next
  case True
  from read_punch_present [of prow zone srow] True assms obtain a_in2 where
    in2: "adjust_actual_in2 zone (dt_date zone (sched_start srow) < dt_date zone (sched_end srow))
            (out1 prow) (in2 prow) = Inr a_in2"
    and a: "v_actual_in2 a = a_in2"
    by auto
  show ?thesis
    using in2 True unfolding a adjust_actual_in2_cases
    by (cases "in2 prow"; cases "out1 prow") (auto simp add: truthy_def split: if_splits)
qed

subsection \<open>Evaluating a run step by step\<close>

lemma calculate_summary_value:
  assumes "rs \<noteq> []"
    and "fl (fsum (map sched_minutes rs) / 60) = H"
    and "fl (fsum (map worked_minutes_clipped rs) / 60) = W"
    and "fl (fl (rat_of_int (count_where present rs) / rat_of_int (int (length rs))) * 100) = ps"
    and "(if 0 < H then fl (fl (W / H) * 100) else 0) = ph"
  shows "calculate_summary rs =
     Inr \<lparr>scheduled_shifts = int (length rs),
          shifts_worked = count_where present rs,
          attendance_pct_shifts = round2 ps,
          scheduled_hours = round2 H,
          worked_hours = round2 W,
          attendance_pct_hours = round2 ph,
          tardy_count = count_where tardy rs,
          early_dismissal_count = count_where early_dismissal rs\<rparr>"
proof -
  have "0 < int (length rs)"
    using assms(1) by simp
  then show ?thesis
    using assms(1) unfolding assms(2-5) [symmetric]
    by (auto simp add: calculate_summary_def Let_def bind_err_def truediv_def)
qed

lemma build_attendance_single:
  assumes "process_shift zone punch_df config srow = Inr (r, w)"
    and "calculate_summary [r] = Inr s"
  shows "build_attendance zone punch_df [srow] config = Inr ([r], s, w)"
  using assms by (simp add: build_attendance_def bind_err_def)

lemma process_shift_value:
  assumes "punch_matches punch_df (sched_date srow) = prow # rest"
    and "read_punch zone srow prow = Inr a"
    and "make_day_record config srow a = Inr r"
  shows "process_shift zone punch_df config srow =
     Inr (r, if rest = [] then [] else [MultiplePunchRecords (sched_date srow)])"
  using assms(2,3) unfolding process_shift_match [OF assms(1)] by (simp add: bind_err_def)

lemma process_shift_raises:
  assumes "punch_matches punch_df (sched_date srow) = prow # rest"
    and "read_punch zone srow prow = Inl e"
  shows "process_shift zone punch_df config srow = Inl e"
  using assms(2) unfolding process_shift_match [OF assms(1)] by (simp add: bind_err_def)

subsection \<open>Sums of whole numbers are exact\<close>

lemma fl_of_int_exact:
  assumes "0 < k" and "k < 2 ^ 53"
  shows "fl (rat_of_int k) = rat_of_int k"
proof -
  define x where "x = rat_of_int k"
  have x_pos: "0 < x"
    using assms(1) by (simp add: x_def)
  have "rat_of_int k < rat_of_int (2 ^ 53)"
    using assms(2) by (simp only: of_int_less_iff)
  then have x_lt: "x < pow2 53"
    by (simp add: x_def pow2_nat)
  have "floor_log2 x < 53"
  proof (rule ccontr)
    assume "\<not> floor_log2 x < 53"
    then have "pow2 53 \<le> pow2 (floor_log2 x)"
      by (intro pow2_mono) simp
    also have "\<dots> \<le> x"
      using floor_log2_bounds(1) [OF x_pos] .
    finally show False
      using x_lt by simp
  qed
  then have e_le: "fl_exponent x \<le> 0"
    by (simp add: fl_exponent_def)
  define n where "n = nat (- fl_exponent x)"
  have p: "pow2 (fl_exponent x) = 1 / 2 ^ n"
  proof -
    have "pow2 (fl_exponent x) = pow2 (- (- fl_exponent x))"
      by simp
    also have "\<dots> = 1 / pow2 (- fl_exponent x)"
      by (rule pow2_neg)
    also have "pow2 (- fl_exponent x) = 2 ^ n"
      using e_le by (simp add: pow2_nat n_def)
    finally show ?thesis .
  qed
  have "x / pow2 (fl_exponent x) = x * 2 ^ n"
    by (simp add: p)
  then have "x / pow2 (fl_exponent x) = rat_of_int (k * 2 ^ n)"
    by (simp add: x_def)
  then have "round_half_even (x / pow2 (fl_exponent x)) = k * 2 ^ n"
    by (simp only: round_half_even_of_int)
  then have "fl x = rat_of_int (k * 2 ^ n) * (1 / 2 ^ n)"
    using x_pos by (simp add: fl_def p)
  then show ?thesis
    by (simp add: x_def)
qed

lemma fl_nat_exact:
  assumes "x \<in> \<nat>" and "x < 2 ^ 53"
  shows "fl x = x"
proof -
  from assms(1) obtain n where x: "x = of_nat n"
    by (auto simp add: Nats_def)
  show ?thesis
  proof (cases "n = 0")
    case True
    then show ?thesis by (simp add: x fl_0)
  next
    case False
    have "rat_of_int (int n) < rat_of_int (2 ^ 53)"
      using assms(2) by (simp add: x)
    then have "int n < 2 ^ 53"
      by (simp only: of_int_less_iff)
    with False fl_of_int_exact [of "int n"] show ?thesis
      by (simp add: x)
  qed
qed

lemma foldl_fl_exact:
  assumes "\<forall>x \<in> set xs. x \<in> \<nat>" and "a \<in> \<nat>" and "a + sum_list xs < 2 ^ 53"
  shows "foldl (\<lambda>acc x. fl (acc + x)) a xs = a + sum_list xs"
  using assms
proof (induction xs arbitrary: a)
  case Nil
  then show ?case by simp
next
  case (Cons x xs)
  have x_nat: "x \<in> \<nat>" and rest: "\<forall>y \<in> set xs. y \<in> \<nat>"
    using Cons.prems(1) by simp_all
  have "0 \<le> sum_list xs"
    using rest by (intro sum_list_nonneg) (auto simp add: Nats_def)
  then have small: "a + x < 2 ^ 53"
    using Cons.prems(3) by simp
  have sum_nat: "a + x \<in> \<nat>"
    using Cons.prems(2) x_nat by (rule Nats_add)
  have step: "fl (a + x) = a + x"
    using sum_nat small by (rule fl_nat_exact)
  have "foldl (\<lambda>acc x. fl (acc + x)) (a + x) xs = (a + x) + sum_list xs"
    using Cons.prems(3) by (intro Cons.IH rest sum_nat) (simp add: add.assoc)
  then show ?case
    by (simp add: step add.assoc)
qed

lemma fsum_exact:
  assumes "\<forall>x \<in> set xs. x \<in> \<nat>" and "sum_list xs < 2 ^ 53"
  shows "fsum xs = sum_list xs"
  using foldl_fl_exact [OF assms(1), of 0] assms(2) by (simp add: fsum_def)

subsection \<open>Counts and exact sums under permutation\<close>

lemma count_where_mset:
  assumes "mset rs = mset rs'"
  shows "count_where flag rs = count_where flag rs'"
proof -
  have "mset (filter flag rs) = mset (filter flag rs')"
    using assms by (simp only: mset_filter)
  then have "mset (map (\<lambda>_. 1::int) (filter flag rs)) = mset (map (\<lambda>_. 1::int) (filter flag rs'))"
    by (simp only: mset_map)
  then have "sum_mset (mset (map (\<lambda>_. 1::int) (filter flag rs)))
           = sum_mset (mset (map (\<lambda>_. 1::int) (filter flag rs')))"
    by simp
  then show ?thesis
    by (simp only: count_where_def sum_mset_sum_list)
qed

lemma sum_list_map_mset:
  fixes f :: "day_record \<Rightarrow> rat"
  assumes "mset rs = mset rs'"
  shows "sum_list (map f rs) = sum_list (map f rs')"
proof -
  have "mset (map f rs) = mset (map f rs')"
    using assms by (simp only: mset_map)
  then have "sum_mset (mset (map f rs)) = sum_mset (mset (map f rs'))"
    by simp
  then show ?thesis
    by (simp only: sum_mset_sum_list)
qed

lemma fsum_whole_mset:
  fixes f :: "day_record \<Rightarrow> rat"
  assumes "mset rs = mset rs'"
    and "\<forall>r \<in> set rs. f r \<in> \<nat>"
    and "sum_list (map f rs) < 2 ^ 53"
  shows "fsum (map f rs) = fsum (map f rs')"
proof -
  have same_set: "set rs' = set rs"
    using assms(1) by (metis set_mset_mset)
  have same_sum: "sum_list (map f rs') = sum_list (map f rs)"
    using sum_list_map_mset [OF assms(1), of f] by simp
  have "fsum (map f rs) = sum_list (map f rs)"
    using assms(2,3) by (intro fsum_exact) auto
  moreover have "fsum (map f rs') = sum_list (map f rs')"
    using assms(2,3) same_set same_sum by (intro fsum_exact) auto
  ultimately show ?thesis
    using same_sum by simp
qed

section \<open>Claims\<close>

text \<open>
  C2. For a scheduled shift whose scheduled end is not before its scheduled start (the
  shifts of the claim, with \<open>sched_end > sched_start\<close>, and the zero-length window
  \<open>sched_end = sched_start\<close>), the run never ends in a division error, and the
  DayRecord of the shift in every result the run returns has
  \<open>0 \<le> worked_minutes_clipped \<le> sched_minutes\<close>; its \<open>attendance_fraction\<close> is the float
  quotient \<open>worked_minutes_clipped / sched_minutes\<close> when \<open>sched_minutes > 0\<close> and \<open>0\<close>
  otherwise, and lies between 0 and 1.
\<close>

theorem C2_clipped_and_fraction:
  assumes "i < length schedule_df"
    and "sched_start (schedule_df ! i) \<le> sched_end (schedule_df ! i)"
  shows "build_attendance zone punch_df schedule_df config \<noteq> Inl ZeroDivisionError \<and>
    (\<forall>day_records s warnings.
       build_attendance zone punch_df schedule_df config = Inr (day_records, s, warnings) \<longrightarrow>
       0 \<le> worked_minutes_clipped (day_records ! i) \<and>
       worked_minutes_clipped (day_records ! i) \<le> sched_minutes (day_records ! i) \<and>
       attendance_fraction (day_records ! i) =
         (if sched_minutes (day_records ! i) > 0
          then fl (worked_minutes_clipped (day_records ! i) / sched_minutes (day_records ! i))
          else 0) \<and>
       0 \<le> attendance_fraction (day_records ! i) \<and>
       attendance_fraction (day_records ! i) \<le> 1 \<and>
       (sched_minutes (day_records ! i) = 0 \<longleftrightarrow>
          sched_start (schedule_df ! i) = sched_end (schedule_df ! i)))"
proof (intro conjI allI impI)
  show "build_attendance zone punch_df schedule_df config \<noteq> Inl ZeroDivisionError"
    using build_attendance_error [of zone punch_df schedule_df config ZeroDivisionError] by auto
next
  fix day_records s warnings
  assume run: "build_attendance zone punch_df schedule_df config = Inr (day_records, s, warnings)"
  let ?r = "day_records ! i"
  let ?d = "sched_end (schedule_df ! i) - sched_start (schedule_df ! i)"
  obtain w where step: "process_shift zone punch_df config (schedule_df ! i) = Inr (?r, w)"
    using build_attendance_record [OF run assms(1)] by blast
  have "\<exists>a. make_day_record config (schedule_df ! i) a = Inr ?r"
  proof (cases "punch_matches punch_df (sched_date (schedule_df ! i))")
    case Nil
    from shift_record_no_match(1) [OF this step] show ?thesis by blast
  next
    case (Cons prow rest)
    from shift_record_match(1) [OF this step] show ?thesis by blast
  qed
  then obtain a where made: "make_day_record config (schedule_df ! i) a = Inr ?r"
    by blast
  have minutes: "sched_minutes ?r = fl (total_seconds ?d / 60)"
    using make_day_record_fields(9) [OF made] .
  have clipped: "worked_minutes_clipped ?r = clamp (v_worked_minutes a) 0 (sched_minutes ?r)"
    using make_day_record_fields(11) [OF made] .
  have fraction: "attendance_fraction ?r =
      (if sched_minutes ?r > 0 then fl (worked_minutes_clipped ?r / sched_minutes ?r) else 0)"
    using make_day_record_fields(12) [OF made] .
  have nonneg: "0 \<le> sched_minutes ?r"
    using assms(2) minutes_of_duration(1) [of ?d] by (simp add: minutes)
  have zero: "sched_minutes ?r = 0 \<longleftrightarrow>
      sched_start (schedule_df ! i) = sched_end (schedule_df ! i)"
  proof
    assume z: "sched_minutes ?r = 0"
    show "sched_start (schedule_df ! i) = sched_end (schedule_df ! i)"
    proof (rule ccontr)
      assume "sched_start (schedule_df ! i) \<noteq> sched_end (schedule_df ! i)"
      with assms(2) have "0 < ?d" by simp
      from minutes_of_duration(2) [OF this] z show False by (simp add: minutes)
    qed
  next
    assume "sched_start (schedule_df ! i) = sched_end (schedule_df ! i)"
    then show "sched_minutes ?r = 0"
      using minutes_of_duration(3) by (simp add: minutes)
  qed
  have lower: "0 \<le> worked_minutes_clipped ?r"
    by (simp add: clipped clamp_def)
  have upper: "worked_minutes_clipped ?r \<le> sched_minutes ?r"
    using nonneg by (simp add: clipped clamp_def)
  have frac: "0 \<le> attendance_fraction ?r" "attendance_fraction ?r \<le> 1"
  proof -
    have "0 \<le> fl (worked_minutes_clipped ?r / sched_minutes ?r) \<and>
          fl (worked_minutes_clipped ?r / sched_minutes ?r) \<le> 1"
      if "0 < sched_minutes ?r"
      using that lower upper
        fl_between_0_1 [of "worked_minutes_clipped ?r / sched_minutes ?r"]
      by (simp add: divide_le_eq_1)
    then show "0 \<le> attendance_fraction ?r" "attendance_fraction ?r \<le> 1"
      by (simp_all add: fraction)
  qed
  show "0 \<le> worked_minutes_clipped ?r" by (rule lower)
  show "worked_minutes_clipped ?r \<le> sched_minutes ?r" by (rule upper)
  show "attendance_fraction ?r =
      (if sched_minutes ?r > 0 then fl (worked_minutes_clipped ?r / sched_minutes ?r) else 0)"
    by (rule fraction)
  show "0 \<le> attendance_fraction ?r" by (rule frac(1))
  show "attendance_fraction ?r \<le> 1" by (rule frac(2))
  show "sched_minutes ?r = 0 \<longleftrightarrow> sched_start (schedule_df ! i) = sched_end (schedule_df ! i)"
    by (rule zero)
qed

theorem C2_clipped_and_fraction_witness:
  "(\<exists>day_records s warnings.
     build_attendance est
       [\<lparr>punch_date = 1, in1 = Timestamp (at_time 1 9 0), out1 = PyNone, in2 = PyNone,
          out2 = Timestamp (at_time 1 17 0)\<rparr>]
       [am_shift_on 1] default_policy = Inr (day_records, s, warnings) \<and>
     0 \<le> worked_minutes_clipped (day_records ! 0) \<and>
     worked_minutes_clipped (day_records ! 0) \<le> sched_minutes (day_records ! 0) \<and>
     0 \<le> attendance_fraction (day_records ! 0) \<and>
     attendance_fraction (day_records ! 0) \<le> 1 \<and>
     sched_minutes (day_records ! 0) \<noteq> 0) \<and>
   (\<exists>day_records s warnings.
     build_attendance est
       [\<lparr>punch_date = 1, in1 = Timestamp (at_time 1 9 0), out1 = PyNone, in2 = PyNone,
          out2 = Timestamp (at_time 1 17 0)\<rparr>]
       [\<lparr>sched_date = 1, sched_shift_type = AM, sched_start = at_time 1 9 45,
          sched_end = at_time 1 9 45\<rparr>] default_policy = Inr (day_records, s, warnings) \<and>
     worked_minutes_clipped (day_records ! 0) = 0 \<and>
     sched_minutes (day_records ! 0) = 0 \<and>
     attendance_fraction (day_records ! 0) = 0)"
proof -
  let ?punches = "[\<lparr>punch_date = 1, in1 = Timestamp (at_time 1 9 0), out1 = PyNone,
          in2 = PyNone, out2 = Timestamp (at_time 1 17 0)\<rparr>]"
  let ?empty_shift = "\<lparr>sched_date = 1, sched_shift_type = AM, sched_start = at_time 1 9 45,
          sched_end = at_time 1 9 45\<rparr>"
  have clean: "\<forall>p \<in> set ?punches.
      in1 p \<noteq> NaT \<and> out2 p \<noteq> NaT \<and> out1 p \<noteq> NaT \<and> in2 p \<noteq> NaT"
    by simp
  obtain day_records s warnings where run1:
    "build_attendance est ?punches [am_shift_on 1] default_policy = Inr (day_records, s, warnings)"
    using build_attendance_returns [OF clean] by blast
  have "sched_start ([am_shift_on 1] ! 0) < sched_end ([am_shift_on 1] ! 0)"
    by (simp add: am_shift_on_def at_time_def)
  then have first: "\<exists>day_records s warnings.
     build_attendance est ?punches [am_shift_on 1] default_policy = Inr (day_records, s, warnings) \<and>
     0 \<le> worked_minutes_clipped (day_records ! 0) \<and>
     worked_minutes_clipped (day_records ! 0) \<le> sched_minutes (day_records ! 0) \<and>
     0 \<le> attendance_fraction (day_records ! 0) \<and>
     attendance_fraction (day_records ! 0) \<le> 1 \<and>
     sched_minutes (day_records ! 0) \<noteq> 0"
    using C2_clipped_and_fraction [of 0 "[am_shift_on 1]" est ?punches default_policy] run1
    by auto
  obtain day_records' s' warnings' where run2:
    "build_attendance est ?punches [?empty_shift] default_policy
       = Inr (day_records', s', warnings')"
    using build_attendance_returns [OF clean] by blast
  have second: "\<exists>day_records s warnings.
     build_attendance est ?punches [?empty_shift] default_policy = Inr (day_records, s, warnings) \<and>
     worked_minutes_clipped (day_records ! 0) = 0 \<and>
     sched_minutes (day_records ! 0) = 0 \<and>
     attendance_fraction (day_records ! 0) = 0"
    using C2_clipped_and_fraction [of 0 "[?empty_shift]" est ?punches default_policy] run2
    by auto
  from first second show ?thesis by blast
qed

text \<open>
  C5. A scheduled shift whose date matches no row of the punch table is processed
  without an error, and its DayRecord (the one at its position in every result the run
  returns) has \<open>present\<close>, \<open>tardy\<close> and \<open>early_dismissal\<close> false, \<open>worked_minutes = 0\<close> and
  the four actual-time fields unset.
\<close>

theorem C5_absent_shift:
  assumes "i < length schedule_df"
    and "punch_matches punch_df (sched_date (schedule_df ! i)) = []"
  shows "\<exists>r. process_shift zone punch_df config (schedule_df ! i) = Inr (r, []) \<and>
     \<not> present r \<and> \<not> tardy r \<and> \<not> early_dismissal r \<and> worked_minutes r = 0 \<and>
     actual_in r = PyNone \<and> actual_out r = PyNone \<and>
     actual_out1 r = PyNone \<and> actual_in2 r = PyNone \<and>
     (\<forall>day_records s warnings.
        build_attendance zone punch_df schedule_df config = Inr (day_records, s, warnings) \<longrightarrow>
        day_records ! i = r)"
proof -
  obtain r where made: "make_day_record config (schedule_df ! i) no_punch = Inr r"
    and step: "process_shift zone punch_df config (schedule_df ! i) = Inr (r, [])"
    using process_shift_no_match [OF assms(2)] by blast
  have "day_records ! i = r"
    if "build_attendance zone punch_df schedule_df config = Inr (day_records, s, warnings)"
    for day_records s warnings
    using build_attendance_record [OF that assms(1)] step by auto
  then show ?thesis
    using step make_day_record_fields [OF made] by (simp add: no_punch_def)
qed

theorem C5_absent_shift_witness:
  "\<exists>day_records s warnings.
     build_attendance est
       [\<lparr>punch_date = 2, in1 = Timestamp (at_time 2 9 40), out1 = PyNone, in2 = PyNone,
          out2 = Timestamp (at_time 2 16 30)\<rparr>]
       [am_shift_on 1, am_shift_on 2] default_policy = Inr (day_records, s, warnings) \<and>
     \<not> present (day_records ! 0) \<and> \<not> tardy (day_records ! 0) \<and>
     \<not> early_dismissal (day_records ! 0) \<and> worked_minutes (day_records ! 0) = 0 \<and>
     actual_in (day_records ! 0) = PyNone \<and> actual_out (day_records ! 0) = PyNone \<and>
     actual_out1 (day_records ! 0) = PyNone \<and> actual_in2 (day_records ! 0) = PyNone"
proof -
  let ?punches = "[\<lparr>punch_date = 2, in1 = Timestamp (at_time 2 9 40), out1 = PyNone,
          in2 = PyNone, out2 = Timestamp (at_time 2 16 30)\<rparr>]"
  have "\<forall>p \<in> set ?punches.
      in1 p \<noteq> NaT \<and> out2 p \<noteq> NaT \<and> out1 p \<noteq> NaT \<and> in2 p \<noteq> NaT"
    by simp
  then obtain day_records s warnings where run:
    "build_attendance est ?punches [am_shift_on 1, am_shift_on 2] default_policy
       = Inr (day_records, s, warnings)"
    using build_attendance_returns by blast
  have "punch_matches ?punches (sched_date ([am_shift_on 1, am_shift_on 2] ! 0)) = []"
    by (simp add: punch_matches_def am_shift_on_def)
  from C5_absent_shift [OF _ this, of est default_policy] run show ?thesis
    by auto
qed

text \<open>
  C4. For a scheduled shift whose matched punch row (the first row of the punch table
  with the shift's date) has a clock-in, the \<open>tardy\<close> flag of the shift's DayRecord, in
  every result the run returns, holds exactly when the clock-in is strictly later than
  the scheduled start plus \<open>tardy_minutes\<close>. The witness is the boundary case of the
  specification: AM shift 09:45 to 16:30, threshold 5, clock-in 09:50, not tardy.
\<close>

theorem C4_tardy_iff:
  assumes "build_attendance zone punch_df schedule_df config = Inr (day_records, s, warnings)"
    and "i < length schedule_df"
    and "punch_matches punch_df (sched_date (schedule_df ! i)) = prow # rest"
    and "in1 prow = Timestamp clock_in"
  shows "tardy (day_records ! i) \<longleftrightarrow>
        clock_in > sched_start (schedule_df ! i) + timedelta_minutes (tardy_minutes config)"
proof -
  obtain w where step:
    "process_shift zone punch_df config (schedule_df ! i) = Inr (day_records ! i, w)"
    using build_attendance_record [OF assms(1,2)] by blast
  obtain a where read: "read_punch zone (schedule_df ! i) prow = Inr a"
    and made: "make_day_record config (schedule_df ! i) a = Inr (day_records ! i)"
    using shift_record_match(1) [OF assms(3) step] by blast
  have "v_present a" and "v_actual_in a = Timestamp clock_in"
    using read_punch_fields(1,3) [OF read] assms(4) by (simp_all add: truthy_def)
  then show ?thesis
    using make_day_record_fields(14) [OF made] by simp
qed

theorem C4_tardy_iff_witness:
  "at_time 1 9 50 = sched_start (am_shift_on 1) + timedelta_minutes (tardy_minutes default_policy) \<and>
   (\<exists>day_records s warnings.
     build_attendance est
       [\<lparr>punch_date = 1, in1 = Timestamp (at_time 1 9 50), out1 = PyNone, in2 = PyNone,
         out2 = Timestamp (at_time 1 16 30)\<rparr>]
       [am_shift_on 1] default_policy = Inr (day_records, s, warnings) \<and>
     \<not> tardy (day_records ! 0))"
proof -
  let ?prow = "\<lparr>punch_date = 1, in1 = Timestamp (at_time 1 9 50), out1 = PyNone, in2 = PyNone,
         out2 = Timestamp (at_time 1 16 30)\<rparr>"
  have "\<forall>p \<in> set [?prow]. in1 p \<noteq> NaT \<and> out2 p \<noteq> NaT \<and> out1 p \<noteq> NaT \<and> in2 p \<noteq> NaT"
    by simp
  then obtain day_records s warnings where run:
    "build_attendance est [?prow] [am_shift_on 1] default_policy = Inr (day_records, s, warnings)"
    using build_attendance_returns by blast
  have boundary: "at_time 1 9 50 =
      sched_start (am_shift_on 1) + timedelta_minutes (tardy_minutes default_policy)"
    by (simp add: am_shift_on_def default_policy_def at_time_def timedelta_minutes_def)
  have matched: "punch_matches [?prow] (sched_date ([am_shift_on 1] ! 0)) = ?prow # []"
    by (simp add: punch_matches_def am_shift_on_def)
  have "\<not> tardy (day_records ! 0)"
    using C4_tardy_iff [OF run _ matched, of "at_time 1 9 50"] boundary by simp
  with run boundary show ?thesis by blast
qed

text \<open>
  C9. Of the lunch pair, only the lunch clock-in can be moved: in every result the run
  returns, the \<open>actual_out1\<close> of the DayRecord is the \<open>out1\<close> of the matched punch row as it
  stands in the table, whatever the shift and the other punches are, while \<open>actual_in2\<close>
  is the row's \<open>in2\<close> advanced by one day exactly when the row has a clock-in and a
  clock-out, the shift crosses midnight, both lunch punches are timestamps and the time
  of day of \<open>in2\<close> is before that of \<open>out1\<close>, and is the row's \<open>in2\<close> otherwise.
\<close>

theorem C9_lunch_out_never_adjusted:
  assumes "build_attendance zone punch_df schedule_df config = Inr (day_records, s, warnings)"
    and "i < length schedule_df"
    and "punch_matches punch_df (sched_date (schedule_df ! i)) = prow # rest"
  shows "actual_out1 (day_records ! i) = out1 prow \<and>
     actual_in2 (day_records ! i) =
       (if truthy (in1 prow) \<and> truthy (out2 prow) \<and>
           dt_date zone (sched_start (schedule_df ! i)) < dt_date zone (sched_end (schedule_df ! i)) \<and>
           (\<exists>o1 i2. out1 prow = Timestamp o1 \<and> in2 prow = Timestamp i2 \<and>
                     dt_time zone i2 < dt_time zone o1)
        then (case in2 prow of Timestamp i2 \<Rightarrow> Timestamp (i2 + timedelta_days 1) | c \<Rightarrow> c)
        else in2 prow)"
proof -
  obtain w where step:
    "process_shift zone punch_df config (schedule_df ! i) = Inr (day_records ! i, w)"
    using build_attendance_record [OF assms(1,2)] by blast
  obtain a where read: "read_punch zone (schedule_df ! i) prow = Inr a"
    and made: "make_day_record config (schedule_df ! i) a = Inr (day_records ! i)"
    using shift_record_match(1) [OF assms(3) step] by blast
  show ?thesis
    using make_day_record_fields(7,8) [OF made] read_punch_fields(2) [OF read]
      read_punch_lunch_in [OF read] by simp
qed

theorem C9_lunch_out_never_adjusted_witness:
  "\<exists>day_records s warnings.
     build_attendance est
       [\<lparr>punch_date = 1, in1 = Timestamp (at_time 1 15 58), out1 = Timestamp (at_time 1 23 50),
         in2 = Timestamp (at_time 1 0 20), out2 = Timestamp (at_time 1 0 40)\<rparr>]
       [pm_shift_on 1] default_policy = Inr (day_records, s, warnings) \<and>
     actual_out1 (day_records ! 0) = Timestamp (at_time 1 23 50) \<and>
     actual_in2 (day_records ! 0) = Timestamp (at_time 2 0 20)"
proof -
  let ?prow = "\<lparr>punch_date = 1, in1 = Timestamp (at_time 1 15 58),
         out1 = Timestamp (at_time 1 23 50),
         in2 = Timestamp (at_time 1 0 20), out2 = Timestamp (at_time 1 0 40)\<rparr>"
  have "\<forall>p \<in> set [?prow]. in1 p \<noteq> NaT \<and> out2 p \<noteq> NaT \<and> out1 p \<noteq> NaT \<and> in2 p \<noteq> NaT"
    by simp
  then obtain day_records s warnings where run:
    "build_attendance est [?prow] [pm_shift_on 1] default_policy = Inr (day_records, s, warnings)"
    using build_attendance_returns by blast
  have matched: "punch_matches [?prow] (sched_date ([pm_shift_on 1] ! 0)) = ?prow # []"
    by (simp add: punch_matches_def pm_shift_on_def)
  have "actual_out1 (day_records ! 0) = Timestamp (at_time 1 23 50) \<and>
     actual_in2 (day_records ! 0) = Timestamp (at_time 2 0 20)"
    using C9_lunch_out_never_adjusted [OF run _ matched]
    by (simp add: pm_shift_on_def at_time_def dt_date_def dt_time_def est_def
        timedelta_days_def usec_per_day_def truthy_def)
  with run show ?thesis by blast
qed

text \<open>
  C10. When every scheduled shift ends after it starts, the Summary of every result
  \<open>build_attendance\<close> returns has \<open>shifts_worked \<le> scheduled_shifts\<close>,
  \<open>tardy_count \<le> shifts_worked\<close>, \<open>early_dismissal_count \<le> shifts_worked\<close> and
  \<open>worked_hours \<le> scheduled_hours\<close>, and both percentages lie between 0 and 100.
\<close>

theorem C10_summary_bounds:
  assumes "build_attendance zone punch_df schedule_df config = Inr (day_records, s, warnings)"
    and "\<forall>srow \<in> set schedule_df. sched_start srow < sched_end srow"
  shows "0 \<le> shifts_worked s \<and> shifts_worked s \<le> scheduled_shifts s \<and>
     tardy_count s \<le> shifts_worked s \<and> early_dismissal_count s \<le> shifts_worked s \<and>
     worked_hours s \<le> scheduled_hours s \<and>
     0 \<le> attendance_pct_shifts s \<and> attendance_pct_shifts s \<le> 100 \<and>
     0 \<le> attendance_pct_hours s \<and> attendance_pct_hours s \<le> 100"
proof -
  have len: "length day_records = length schedule_df"
    and summ: "calculate_summary day_records = Inr s"
    and each: "\<forall>i<length schedule_df.
        \<exists>w. process_shift zone punch_df config (schedule_df ! i) = Inr (day_records ! i, w) \<and>
            set w \<subseteq> set warnings"
    using build_attendance_result [OF assms(1)] by blast+
  have "(tardy r \<longrightarrow> present r) \<and> (early_dismissal r \<longrightarrow> present r) \<and>
      0 \<le> worked_minutes_clipped r \<and> worked_minutes_clipped r \<le> sched_minutes r"
    if "r \<in> set day_records" for r
  proof -
    from that obtain i where i: "i < length day_records" and r: "r = day_records ! i"
      by (auto simp add: in_set_conv_nth)
    with len each obtain w where
      step: "process_shift zone punch_df config (schedule_df ! i) = Inr (r, w)"
      by auto
    have "schedule_df ! i \<in> set schedule_df"
      using i len by simp
    with assms(2) have "sched_start (schedule_df ! i) \<le> sched_end (schedule_df ! i)"
      by fastforce
    with process_shift_record_props [OF step] show ?thesis by blast
  qed
  from calculate_summary_bounds [OF this summ] show ?thesis .
qed

theorem C10_summary_bounds_witness:
  "\<exists>day_records s warnings.
     build_attendance est
       [\<lparr>punch_date = 1, in1 = Timestamp (at_time 1 10 0), out1 = Timestamp (at_time 1 12 0),
          in2 = Timestamp (at_time 1 12 30), out2 = Timestamp (at_time 1 16 0)\<rparr>,
        \<lparr>punch_date = 2, in1 = Timestamp (at_time 2 15 58), out1 = Timestamp (at_time 2 20 0),
          in2 = Timestamp (at_time 2 20 30), out2 = Timestamp (at_time 2 0 10)\<rparr>]
       [am_shift_on 1, pm_shift_on 2, am_shift_on 3] default_policy
       = Inr (day_records, s, warnings) \<and>
     0 \<le> shifts_worked s \<and> shifts_worked s \<le> scheduled_shifts s \<and>
     tardy_count s \<le> shifts_worked s \<and> early_dismissal_count s \<le> shifts_worked s \<and>
     worked_hours s \<le> scheduled_hours s \<and>
     0 \<le> attendance_pct_shifts s \<and> attendance_pct_shifts s \<le> 100 \<and>
     0 \<le> attendance_pct_hours s \<and> attendance_pct_hours s \<le> 100"
proof -
  let ?punches = "[\<lparr>punch_date = 1, in1 = Timestamp (at_time 1 10 0),
          out1 = Timestamp (at_time 1 12 0),
          in2 = Timestamp (at_time 1 12 30), out2 = Timestamp (at_time 1 16 0)\<rparr>,
        \<lparr>punch_date = 2, in1 = Timestamp (at_time 2 15 58), out1 = Timestamp (at_time 2 20 0),
          in2 = Timestamp (at_time 2 20 30), out2 = Timestamp (at_time 2 0 10)\<rparr>]"
  have "\<forall>p \<in> set ?punches. in1 p \<noteq> NaT \<and> out2 p \<noteq> NaT \<and> out1 p \<noteq> NaT \<and> in2 p \<noteq> NaT"
    by simp
  then obtain day_records s warnings where run:
    "build_attendance est ?punches [am_shift_on 1, pm_shift_on 2, am_shift_on 3] default_policy
       = Inr (day_records, s, warnings)"
    using build_attendance_returns by blast
  have "\<forall>srow \<in> set [am_shift_on 1, pm_shift_on 2, am_shift_on 3].
          sched_start srow < sched_end srow"
    by (simp add: am_shift_on_def pm_shift_on_def at_time_def usec_per_day_def)
  from C10_summary_bounds [OF run this] run show ?thesis by blast
qed

text \<open>
  C1. The claim's worked example does not hold as stated: for the PM shift 16:00 to
  00:15 of the next day with clock-in 15:58 and clock-out 00:10 recorded on the same
  date, the clock-out is moved to the next day and \<open>worked_minutes\<close> is 492 (8 hours 12
  minutes), 240 minutes away from the 252 of the claim.
\<close>

theorem C1_worked_minutes_counterexample:
  "build_attendance est [pm_example_punch] [pm_shift_on 1] default_policy
     = Inr ([pm_example_record], pm_example_summary, []) \<and>
   actual_out pm_example_record = Timestamp (at_time 1 0 10 + timedelta_days 1) \<and>
   worked_minutes pm_example_record = 492 \<and>
   worked_minutes pm_example_record - 252 = 240"
proof -
  have matched: "punch_matches [pm_example_punch] (sched_date (pm_shift_on 1))
      = pm_example_punch # []"
    by (simp add: punch_matches_def pm_shift_on_def pm_example_punch_def)
  have read: "read_punch est (pm_shift_on 1) pm_example_punch =
     Inr \<lparr>v_actual_in = Timestamp (at_time 1 15 58), v_actual_out = Timestamp (at_time 2 0 10),
          v_actual_out1 = PyNone, v_actual_in2 = PyNone, v_worked_minutes = 492,
          v_present = True\<rparr>"
    by code_simp
  have made: "make_day_record default_policy (pm_shift_on 1)
       \<lparr>v_actual_in = Timestamp (at_time 1 15 58), v_actual_out = Timestamp (at_time 2 0 10),
        v_actual_out1 = PyNone, v_actual_in2 = PyNone, v_worked_minutes = 492,
        v_present = True\<rparr>
     = Inr pm_example_record"
    by code_simp
  have step: "process_shift est [pm_example_punch] default_policy (pm_shift_on 1)
      = Inr (pm_example_record, [])"
    using process_shift_value [OF matched read made] by simp
  have H: "fl (fsum (map sched_minutes [pm_example_record]) / 60) = 33 / 4"
    by code_simp
  have W: "fl (fsum (map worked_minutes_clipped [pm_example_record]) / 60) = fl (82 / 10)"
    by code_simp
  have ps: "fl (fl (rat_of_int (count_where present [pm_example_record])
      / rat_of_int (int (length [pm_example_record]))) * 100) = 100"
    by code_simp
  have ph: "(if (0::rat) < 33 / 4 then fl (fl (fl (82 / 10) / (33 / 4)) * 100) else 0)
      = fl (fl (fl (82 / 10) / (33 / 4)) * 100)"
    by simp
  have "\<lparr>scheduled_shifts = int (length [pm_example_record]),
          shifts_worked = count_where present [pm_example_record],
          attendance_pct_shifts = round2 100,
          scheduled_hours = round2 (33 / 4),
          worked_hours = round2 (fl (82 / 10)),
          attendance_pct_hours = round2 (fl (fl (fl (82 / 10) / (33 / 4)) * 100)),
          tardy_count = count_where tardy [pm_example_record],
          early_dismissal_count = count_where early_dismissal [pm_example_record]\<rparr>
      = pm_example_summary"
    by code_simp
  then have summ: "calculate_summary [pm_example_record] = Inr pm_example_summary"
    using calculate_summary_value [OF _ H W ps ph] by simp
  have "build_attendance est [pm_example_punch] [pm_shift_on 1] default_policy
     = Inr ([pm_example_record], pm_example_summary, [])"
    using build_attendance_single [OF step summ] .
  moreover have "actual_out pm_example_record = Timestamp (at_time 1 0 10 + timedelta_days 1)"
    by (simp add: pm_example_record_def at_time_def timedelta_days_def usec_per_day_def)
  moreover have "worked_minutes pm_example_record = 492"
    by (simp add: pm_example_record_def)
  ultimately show ?thesis by simp
qed

text \<open>
  C1, amended. For a scheduled shift that crosses midnight (the date of its scheduled end
  is later than the date of its scheduled start) whose matched punch row has a clock-in
  and a clock-out with an earlier time of day than the clock-in, the DayRecord of the
  shift, in every result the run returns, has as \<open>actual_out\<close> the clock-out advanced by
  exactly one day (24 hours), and as \<open>worked_minutes\<close> the minutes from the clock-in to
  that advanced clock-out less the lunch minutes, floored at 0. The witness is the worked
  example with no lunch punches in the table, where this gives 492 minutes.
\<close>

theorem C1_cross_midnight_clock_out:
  assumes "build_attendance zone punch_df schedule_df config = Inr (day_records, s, warnings)"
    and "i < length schedule_df"
    and "dt_date zone (sched_start (schedule_df ! i)) < dt_date zone (sched_end (schedule_df ! i))"
    and "punch_matches punch_df (sched_date (schedule_df ! i)) = prow # rest"
    and "in1 prow = Timestamp clock_in"
    and "out2 prow = Timestamp clock_out"
    and "dt_time zone clock_out < dt_time zone clock_in"
  shows "actual_in (day_records ! i) = Timestamp clock_in \<and>
     actual_out (day_records ! i) = Timestamp (clock_out + timedelta_days 1) \<and>
     (\<exists>lunch. lunch_minutes_of (out1 prow) (actual_in2 (day_records ! i)) = Inr lunch \<and>
        0 \<le> lunch \<and>
        worked_minutes (day_records ! i) =
          max 0 (fl (fl (total_seconds (clock_out + timedelta_days 1 - clock_in) / 60) - lunch)))"
proof -
  obtain w where step:
    "process_shift zone punch_df config (schedule_df ! i) = Inr (day_records ! i, w)"
    using build_attendance_record [OF assms(1,2)] by blast
  obtain a where read: "read_punch zone (schedule_df ! i) prow = Inr a"
    and made: "make_day_record config (schedule_df ! i) a = Inr (day_records ! i)"
    using shift_record_match(1) [OF assms(4) step] by blast
  show ?thesis
    using make_day_record_fields(5,6,8,10) [OF made] read_punch_fields(1) [OF read]
      read_punch_cross_midnight [OF assms(5,6,3,7) read] assms(5)
    by simp
qed

theorem C1_cross_midnight_clock_out_witness:
  "\<exists>day_records s warnings.
     build_attendance est [pm_example_punch] [pm_shift_on 1] default_policy
       = Inr (day_records, s, warnings) \<and>
     actual_in (day_records ! 0) = Timestamp (at_time 1 15 58) \<and>
     actual_out (day_records ! 0) = Timestamp (at_time 2 0 10) \<and>
     worked_minutes (day_records ! 0) = 492"
proof -
  have "\<forall>p \<in> set [pm_example_punch].
      in1 p \<noteq> NaT \<and> out2 p \<noteq> NaT \<and> out1 p \<noteq> NaT \<and> in2 p \<noteq> NaT"
    by (simp add: pm_example_punch_def)
  then obtain day_records s warnings where run:
    "build_attendance est [pm_example_punch] [pm_shift_on 1] default_policy
       = Inr (day_records, s, warnings)"
    using build_attendance_returns by blast
  have crosses: "dt_date est (sched_start ([pm_shift_on 1] ! 0))
      < dt_date est (sched_end ([pm_shift_on 1] ! 0))"
    by (simp add: pm_shift_on_def at_time_def dt_date_def est_def usec_per_day_def)
  have matched: "punch_matches [pm_example_punch] (sched_date ([pm_shift_on 1] ! 0))
      = pm_example_punch # []"
    by (simp add: punch_matches_def pm_shift_on_def pm_example_punch_def)
  have earlier: "dt_time est (at_time 1 0 10) < dt_time est (at_time 1 15 58)"
    by (simp add: at_time_def dt_time_def est_def usec_per_day_def)
  have cells: "in1 pm_example_punch = Timestamp (at_time 1 15 58)"
    "out2 pm_example_punch = Timestamp (at_time 1 0 10)"
    by (simp_all add: pm_example_punch_def)
  from C1_cross_midnight_clock_out [OF run _ crosses matched cells earlier] obtain lunch where
    a_in: "actual_in (day_records ! 0) = Timestamp (at_time 1 15 58)"
    and a_out: "actual_out (day_records ! 0) = Timestamp (at_time 1 0 10 + timedelta_days 1)"
    and lunch: "lunch_minutes_of (out1 pm_example_punch) (actual_in2 (day_records ! 0)) = Inr lunch"
    and worked: "worked_minutes (day_records ! 0) =
       max 0 (fl (fl (total_seconds (at_time 1 0 10 + timedelta_days 1 - at_time 1 15 58) / 60)
                  - lunch))"
    by auto
  have "lunch = 0"
    using lunch by (simp add: lunch_minutes_of_def truthy_def pm_example_punch_def)
  moreover have "max 0 (fl (fl (total_seconds (at_time 1 0 10 + timedelta_days 1 - at_time 1 15 58)
      / 60) - 0)) = 492"
    by code_simp
  ultimately have "worked_minutes (day_records ! 0) = 492"
    using worked by simp
  moreover have "at_time 1 0 10 + timedelta_days 1 = at_time 2 0 10"
    by (simp add: at_time_def timedelta_days_def usec_per_day_def)
  ultimately show ?thesis using run a_in a_out by auto
qed

text \<open>
  C3. The run does not return for every well-formed pair of tables: when a scheduled
  shift crosses midnight and its matched punch row has a clock-in but a missing
  clock-out (\<^verbatim>\<open>NaT\<close>), \<^verbatim>\<open>actual_out.time()\<close> at line 75 raises \<^verbatim>\<open>ValueError\<close>.
\<close>

theorem C3_missing_clock_out_raises:
  "build_attendance est missing_clock_out_punches
     [am_shift_on 1, pm_shift_on 2, am_shift_on 3] default_policy = Inl ValueError"
proof -
  have first: "\<exists>r. process_shift est missing_clock_out_punches default_policy (am_shift_on 1)
      = Inr (r, [])"
    using process_shift_no_match [of missing_clock_out_punches "am_shift_on 1" default_policy est]
    by (auto simp add: punch_matches_def missing_clock_out_punches_def am_shift_on_def)
  have matched: "punch_matches missing_clock_out_punches (sched_date (pm_shift_on 2))
      = hd missing_clock_out_punches # []"
    by (simp add: punch_matches_def missing_clock_out_punches_def pm_shift_on_def)
  have "read_punch est (pm_shift_on 2) (hd missing_clock_out_punches) = Inl ValueError"
    by code_simp
  from process_shift_raises [OF matched this]
  have second: "process_shift est missing_clock_out_punches default_policy (pm_shift_on 2)
      = Inl ValueError" .
  from first second show ?thesis
    by (auto simp add: build_attendance_def bind_err_def)
qed




text \<open>
  C8. For two DayRecords, one present with \<open>worked_minutes_clipped = 400\<close> and
  \<open>sched_minutes = 405\<close>, one absent (nothing worked) with \<open>sched_minutes = 405\<close>, neither
  an early dismissal, \<open>calculate_summary\<close> returns \<open>scheduled_shifts = 2\<close>,
  \<open>shifts_worked = 1\<close>, \<open>attendance_pct_shifts = 50.0\<close>, \<open>scheduled_hours = 13.5\<close>,
  \<open>worked_hours = 6.67\<close> (the float sum 400.0 divided by 60 and rounded to two places),
  \<open>tardy_count\<close> the number of records flagged tardy and \<open>early_dismissal_count = 0\<close>;
  \<open>attendance_pct_hours\<close> is 49.38. A decimal such as 6.67 stands for the float nearest
  to it, \<open>fl (667 / 100)\<close>. The witness is the pair of records of the repository's test.
\<close>

theorem C8_two_record_summary:
  assumes "present r1" and "worked_minutes_clipped r1 = 400" and "sched_minutes r1 = 405"
    and "\<not> present r2" and "worked_minutes_clipped r2 = 0" and "sched_minutes r2 = 405"
    and "\<not> early_dismissal r1" and "\<not> early_dismissal r2"
  shows "calculate_summary [r1, r2] =
     Inr \<lparr>scheduled_shifts = 2, shifts_worked = 1, attendance_pct_shifts = 50,
          scheduled_hours = 27 / 2, worked_hours = fl (667 / 100),
          attendance_pct_hours = fl (4938 / 100),
          tardy_count = (if tardy r1 then 1 else 0) + (if tardy r2 then 1 else 0),
          early_dismissal_count = 0\<rparr>"
proof -
  have c_sched: "fl (fsum [405, 405] / 60) = 27 / 2"
    by code_simp
  have c_worked: "fl (fsum [400, 0] / 60) = fl (20 / 3)"
    by code_simp
  have c_shifts: "fl (fl (rat_of_int 1 / rat_of_int 2) * 100) = 50"
    by code_simp
  have r_shifts: "round2 50 = 50"
    by code_simp
  have r_sched: "round2 (27 / 2) = 27 / 2"
    by code_simp
  have r_worked: "round2 (fl (20 / 3)) = fl (667 / 100)"
    by code_simp
  have r_hours: "round2 (fl (fl (fl (20 / 3) / (27 / 2)) * 100)) = fl (4938 / 100)"
    by code_simp
  have n_worked: "count_where present [r1, r2] = 1"
    using assms(1,4) by (simp add: count_where_def)
  have n_early: "count_where early_dismissal [r1, r2] = 0"
    using assms(7,8) by (simp add: count_where_def)
  have n_tardy: "count_where tardy [r1, r2] = (if tardy r1 then 1 else 0) + (if tardy r2 then 1 else 0)"
    by (simp add: count_where_def)
  have n_all: "int (length [r1, r2]) = 2"
    by simp
  have H: "fl (fsum (map sched_minutes [r1, r2]) / 60) = 27 / 2"
    using c_sched by (simp add: assms(3,6))
  have W: "fl (fsum (map worked_minutes_clipped [r1, r2]) / 60) = fl (20 / 3)"
    using c_worked by (simp add: assms(2,5))
  have ps: "fl (fl (rat_of_int (count_where present [r1, r2])
      / rat_of_int (int (length [r1, r2]))) * 100) = 50"
    unfolding n_worked n_all by (rule c_shifts)
  have ph: "(if (0::rat) < 27 / 2 then fl (fl (fl (20 / 3) / (27 / 2)) * 100) else 0)
      = fl (fl (fl (20 / 3) / (27 / 2)) * 100)"
    by simp
  have "calculate_summary [r1, r2] =
     Inr \<lparr>scheduled_shifts = int (length [r1, r2]),
          shifts_worked = count_where present [r1, r2],
          attendance_pct_shifts = round2 50,
          scheduled_hours = round2 (27 / 2),
          worked_hours = round2 (fl (20 / 3)),
          attendance_pct_hours = round2 (fl (fl (fl (20 / 3) / (27 / 2)) * 100)),
          tardy_count = count_where tardy [r1, r2],
          early_dismissal_count = count_where early_dismissal [r1, r2]\<rparr>"
    by (rule calculate_summary_value [OF _ H W ps ph]) simp
  then show ?thesis
    unfolding r_shifts r_sched r_worked r_hours n_worked n_early n_tardy n_all .
qed

theorem C8_two_record_summary_witness:
  "calculate_summary [test_present_record, test_absent_record] =
     Inr \<lparr>scheduled_shifts = 2, shifts_worked = 1, attendance_pct_shifts = 50,
          scheduled_hours = 27 / 2, worked_hours = fl (667 / 100),
          attendance_pct_hours = fl (4938 / 100),
          tardy_count = 1, early_dismissal_count = 0\<rparr>"
  using C8_two_record_summary [of test_present_record test_absent_record]
  by (simp add: test_present_record_def test_absent_record_def)

text \<open>
  C7. \<open>calculate_summary\<close> is not invariant under permutation in its rounded hour
  fields: the hours are a left-to-right sum of floats, and float addition depends on the
  order. For three AM shifts with clock-in 09:45:00 and clock-outs 16:29:20, 16:21:57
  and 15:45:37, \<open>worked_hours\<close> is 19.37 for the records in this order and 19.36 for the
  records in the reverse order.
\<close>

theorem C7_permutation_counterexample:
  "calculate_summary [seconds_record 1 24260, seconds_record 2 23817, seconds_record 3 21637]
     = Inr (seconds_summary (fl (1937 / 100))) \<and>
   calculate_summary [seconds_record 3 21637, seconds_record 2 23817, seconds_record 1 24260]
     = Inr (seconds_summary (fl (1936 / 100))) \<and>
   fl (1937 / 100) \<noteq> fl (1936 / 100)"
proof -
  let ?fwd = "[seconds_record 1 24260, seconds_record 2 23817, seconds_record 3 21637]"
  let ?bwd = "[seconds_record 3 21637, seconds_record 2 23817, seconds_record 1 24260]"
  have H_fwd: "fl (fsum (map sched_minutes ?fwd) / 60) = 81 / 4"
    by code_simp
  have H_bwd: "fl (fsum (map sched_minutes ?bwd) / 60) = 81 / 4"
    by code_simp
  have W_fwd: "fl (fsum (map worked_minutes_clipped ?fwd) / 60) = fl (fl (11619 / 10) / 60)"
    by code_simp
  have W_bwd: "fl (fsum (map worked_minutes_clipped ?bwd) / 60)
       = fl ((fl (11619 / 10) - 1 / 2 ^ 42) / 60)"
    by code_simp
  have n_all: "int (length ?fwd) = 3" "int (length ?bwd) = 3"
    by simp_all
  have n_worked: "count_where present ?fwd = 3" "count_where present ?bwd = 3"
    by (simp_all add: count_where_def seconds_record_def)
  have n_tardy: "count_where tardy ?fwd = 0" "count_where tardy ?bwd = 0"
    by (simp_all add: count_where_def seconds_record_def)
  have n_early: "count_where early_dismissal ?fwd = 1" "count_where early_dismissal ?bwd = 1"
    by (simp_all add: count_where_def seconds_record_def)
  have c_shifts: "fl (fl (rat_of_int 3 / rat_of_int 3) * 100) = 100"
    by code_simp
  have ps_fwd: "fl (fl (rat_of_int (count_where present ?fwd) / rat_of_int (int (length ?fwd)))
      * 100) = 100"
    unfolding n_worked n_all by (rule c_shifts)
  have ps_bwd: "fl (fl (rat_of_int (count_where present ?bwd) / rat_of_int (int (length ?bwd)))
      * 100) = 100"
    unfolding n_worked n_all by (rule c_shifts)
  have ph_fwd:
    "(if (0::rat) < 81 / 4 then fl (fl (fl (fl (11619 / 10) / 60) / (81 / 4)) * 100) else 0)
      = fl (fl (fl (fl (11619 / 10) / 60) / (81 / 4)) * 100)"
    by simp
  have ph_bwd:
    "(if (0::rat) < 81 / 4
      then fl (fl (fl ((fl (11619 / 10) - 1 / 2 ^ 42) / 60) / (81 / 4)) * 100) else 0)
      = fl (fl (fl ((fl (11619 / 10) - 1 / 2 ^ 42) / 60) / (81 / 4)) * 100)"
    by simp
  have r_sched: "round2 (81 / 4) = 81 / 4"
    by code_simp
  have r_fwd: "round2 (fl (fl (11619 / 10) / 60)) = fl (1937 / 100)"
    by code_simp
  have r_bwd: "round2 (fl ((fl (11619 / 10) - 1 / 2 ^ 42) / 60)) = fl (1936 / 100)"
    by code_simp
  have p_fwd: "round2 (fl (fl (fl (fl (11619 / 10) / 60) / (81 / 4)) * 100)) = fl (9563 / 100)"
    by code_simp
  have p_bwd:
    "round2 (fl (fl (fl ((fl (11619 / 10) - 1 / 2 ^ 42) / 60) / (81 / 4)) * 100))
       = fl (9563 / 100)"
    by code_simp
  have "calculate_summary ?fwd =
     Inr \<lparr>scheduled_shifts = int (length ?fwd),
          shifts_worked = count_where present ?fwd,
          attendance_pct_shifts = round2 100,
          scheduled_hours = round2 (81 / 4),
          worked_hours = round2 (fl (fl (11619 / 10) / 60)),
          attendance_pct_hours = round2 (fl (fl (fl (fl (11619 / 10) / 60) / (81 / 4)) * 100)),
          tardy_count = count_where tardy ?fwd,
          early_dismissal_count = count_where early_dismissal ?fwd\<rparr>"
    by (rule calculate_summary_value [OF _ H_fwd W_fwd ps_fwd ph_fwd]) simp
  then have fwd: "calculate_summary ?fwd = Inr (seconds_summary (fl (1937 / 100)))"
    unfolding round2_100 r_sched r_fwd p_fwd n_all n_worked n_tardy n_early seconds_summary_def .
  have "calculate_summary ?bwd =
     Inr \<lparr>scheduled_shifts = int (length ?bwd),
          shifts_worked = count_where present ?bwd,
          attendance_pct_shifts = round2 100,
          scheduled_hours = round2 (81 / 4),
          worked_hours = round2 (fl ((fl (11619 / 10) - 1 / 2 ^ 42) / 60)),
          attendance_pct_hours =
            round2 (fl (fl (fl ((fl (11619 / 10) - 1 / 2 ^ 42) / 60) / (81 / 4)) * 100)),
          tardy_count = count_where tardy ?bwd,
          early_dismissal_count = count_where early_dismissal ?bwd\<rparr>"
    by (rule calculate_summary_value [OF _ H_bwd W_bwd ps_bwd ph_bwd]) simp
  then have bwd: "calculate_summary ?bwd = Inr (seconds_summary (fl (1936 / 100)))"
    unfolding round2_100 r_sched r_bwd p_bwd n_all n_worked n_tardy n_early seconds_summary_def .
  have "fl (1937 / 100) \<noteq> fl (1936 / 100)"
    by code_simp
  with fwd bwd show ?thesis by simp
qed

text \<open>
  C7, amended. For two lists of DayRecords that are permutations of each other,
  \<open>calculate_summary\<close> returns Summaries with the same \<open>scheduled_shifts\<close>,
  \<open>shifts_worked\<close>, \<open>tardy_count\<close>, \<open>early_dismissal_count\<close> and
  \<open>attendance_pct_shifts\<close>; and the two Summaries are equal in every field, the rounded
  hour and percentage fields included, when every \<open>sched_minutes\<close> and
  \<open>worked_minutes_clipped\<close> is a whole number of minutes (and the totals stay below
  \<open>2 ^ 53\<close>), since such floats add without rounding.
\<close>

theorem C7_summary_permutation_invariant:
  assumes "mset rs = mset rs'"
  shows "\<exists>s s'. calculate_summary rs = Inr s \<and> calculate_summary rs' = Inr s' \<and>
     scheduled_shifts s = scheduled_shifts s' \<and> shifts_worked s = shifts_worked s' \<and>
     tardy_count s = tardy_count s' \<and> early_dismissal_count s = early_dismissal_count s' \<and>
     attendance_pct_shifts s = attendance_pct_shifts s' \<and>
     ((\<forall>r \<in> set rs. sched_minutes r \<in> \<nat> \<and> worked_minutes_clipped r \<in> \<nat>) \<and>
      sum_list (map sched_minutes rs) < 2 ^ 53 \<and>
      sum_list (map worked_minutes_clipped rs) < 2 ^ 53 \<longrightarrow> s = s')"
proof (cases "rs = []")
  case True
  with assms have "rs' = []" by simp
  with True show ?thesis
    by (simp add: calculate_summary_def)
next
  case False
  have len: "length rs = length rs'"
    using assms by (rule mset_eq_length)
  with False have ne: "rs' \<noteq> []" by auto
  have counts: "count_where present rs = count_where present rs'"
    "count_where tardy rs = count_where tardy rs'"
    "count_where early_dismissal rs = count_where early_dismissal rs'"
    using assms by (rule count_where_mset)+
  define H where "H = fl (fsum (map sched_minutes rs) / 60)"
  define W where "W = fl (fsum (map worked_minutes_clipped rs) / 60)"
  define H' where "H' = fl (fsum (map sched_minutes rs') / 60)"
  define W' where "W' = fl (fsum (map worked_minutes_clipped rs') / 60)"
  define ps where "ps = fl (fl (rat_of_int (count_where present rs)
      / rat_of_int (int (length rs))) * 100)"
  have s: "calculate_summary rs =
     Inr \<lparr>scheduled_shifts = int (length rs),
          shifts_worked = count_where present rs,
          attendance_pct_shifts = round2 ps,
          scheduled_hours = round2 H,
          worked_hours = round2 W,
          attendance_pct_hours = round2 (if 0 < H then fl (fl (W / H) * 100) else 0),
          tardy_count = count_where tardy rs,
          early_dismissal_count = count_where early_dismissal rs\<rparr>"
    by (rule calculate_summary_value [OF False]) (simp_all add: H_def W_def ps_def)
  have s': "calculate_summary rs' =
     Inr \<lparr>scheduled_shifts = int (length rs),
          shifts_worked = count_where present rs,
          attendance_pct_shifts = round2 ps,
          scheduled_hours = round2 H',
          worked_hours = round2 W',
          attendance_pct_hours = round2 (if 0 < H' then fl (fl (W' / H') * 100) else 0),
          tardy_count = count_where tardy rs,
          early_dismissal_count = count_where early_dismissal rs\<rparr>"
    unfolding len counts
    by (rule calculate_summary_value [OF ne]) (simp_all add: H'_def W'_def ps_def len counts)
  have "H = H' \<and> W = W'"
    if whole: "\<forall>r \<in> set rs. sched_minutes r \<in> \<nat> \<and> worked_minutes_clipped r \<in> \<nat>"
      and small: "sum_list (map sched_minutes rs) < 2 ^ 53"
        "sum_list (map worked_minutes_clipped rs) < 2 ^ 53"
  proof -
    have "fsum (map sched_minutes rs) = fsum (map sched_minutes rs')"
      using whole small(1) by (intro fsum_whole_mset [OF assms]) auto
    moreover have "fsum (map worked_minutes_clipped rs) = fsum (map worked_minutes_clipped rs')"
      using whole small(2) by (intro fsum_whole_mset [OF assms]) auto
    ultimately show ?thesis
      by (simp add: H_def W_def H'_def W'_def)
  qed
  with s s' show ?thesis
    by auto
qed

theorem C7_summary_permutation_invariant_witness:
  "calculate_summary [test_present_record, test_absent_record]
     = calculate_summary [test_absent_record, test_present_record]"
proof -
  have "mset [test_present_record, test_absent_record]
      = mset [test_absent_record, test_present_record]"
    by simp
  from C7_summary_permutation_invariant [OF this] obtain s s' where
    "calculate_summary [test_present_record, test_absent_record] = Inr s"
    "calculate_summary [test_absent_record, test_present_record] = Inr s'"
    "(\<forall>r \<in> set [test_present_record, test_absent_record].
         sched_minutes r \<in> \<nat> \<and> worked_minutes_clipped r \<in> \<nat>) \<and>
      sum_list (map sched_minutes [test_present_record, test_absent_record]) < 2 ^ 53 \<and>
      sum_list (map worked_minutes_clipped [test_present_record, test_absent_record]) < 2 ^ 53
      \<longrightarrow> s = s'"
    by blast
  moreover have "(\<forall>r \<in> set [test_present_record, test_absent_record].
         sched_minutes r \<in> \<nat> \<and> worked_minutes_clipped r \<in> \<nat>) \<and>
      sum_list (map sched_minutes [test_present_record, test_absent_record]) < 2 ^ 53 \<and>
      sum_list (map worked_minutes_clipped [test_present_record, test_absent_record]) < 2 ^ 53"
    by (simp add: test_present_record_def test_absent_record_def)
  ultimately show ?thesis by simp
qed


end
